theory Spec2Isabelle
  imports Main
begin

section \<open>Python strings and bytes\<close>

text \<open>
  A Python \<open>str\<close> is a sequence of Unicode code points and a \<open>bytes\<close> object a
  sequence of numbers below 256; both are lists of naturals here. \<open>str\<close> turns a
  literal of the theory into the code points of the same ASCII text.
\<close>

type_synonym pystr = "nat list"
type_synonym bytes = "nat list"

definition str :: "string \<Rightarrow> pystr" where
  "str cs = map of_char cs"

text \<open>\<open>s.lstrip('/')\<close>: every leading \<open>/\<close> (code point 47) is removed.\<close>

definition lstrip_slash :: "pystr \<Rightarrow> pystr" where
  "lstrip_slash s = dropWhile (\<lambda>c. c = 47) s"

text \<open>\<open>s.endswith(suffix)\<close>.\<close>

definition endswith :: "pystr \<Rightarrow> pystr \<Rightarrow> bool" where
  "endswith s suffix \<longleftrightarrow>
     length suffix \<le> length s \<and> drop (length s - length suffix) s = suffix"

text \<open>\<open>str(n)\<close> for an integer: its decimal digits, with a minus sign when negative.\<close>

fun decimal :: "nat \<Rightarrow> pystr" where
  "decimal n = (if n < 10 then [48 + n] else decimal (n div 10) @ [48 + n mod 10])"

declare decimal.simps [simp del]

definition str_of_int :: "int \<Rightarrow> pystr" where
  "str_of_int i = (if i < 0 then 45 # decimal (nat (- i)) else decimal (nat i))"

section \<open>\<open>urllib.parse.unquote\<close>\<close>

text \<open>
  The handler decodes the request path with the standard library's \<open>unquote\<close>
  (default arguments: UTF-8, errors replaced). The library splits the string into maximal
  runs of ASCII characters, percent-decodes each run to bytes (\<open>unquote_to_bytes\<close>),
  decodes the bytes as UTF-8 with U+FFFD for every malformed sequence, and leaves the
  non-ASCII characters between the runs as they are. A string without \<open>%\<close> is returned
  unchanged.
\<close>

definition hexval :: "nat \<Rightarrow> nat option" where
  "hexval c =
     (if 48 \<le> c \<and> c \<le> 57 then Some (c - 48)
      else if 65 \<le> c \<and> c \<le> 70 then Some (c - 55)
      else if 97 \<le> c \<and> c \<le> 102 then Some (c - 87)
      else None)"

text \<open>The table \<open>_hextobyte\<close>: keys are the two-character strings over \<open>0-9A-Fa-f\<close>.\<close>

definition hextobyte :: "nat list \<Rightarrow> nat option" where
  "hextobyte k =
     (case k of
        [a, b] \<Rightarrow>
          (case hexval a of
             None \<Rightarrow> None
           | Some x \<Rightarrow> (case hexval b of None \<Rightarrow> None | Some y \<Rightarrow> Some (16 * x + y)))
      | _ \<Rightarrow> None)"

text \<open>\<open>string.split(b'%')\<close>: the pieces between the \<open>%\<close> signs (code point 37).\<close>

fun split_pct :: "nat list \<Rightarrow> nat list list" where
  "split_pct [] = [[]]"
| "split_pct (c # cs) =
     (if c = 37 then [] # split_pct cs
      else (case split_pct cs of [] \<Rightarrow> [[c]] | b # bs \<Rightarrow> (c # b) # bs))"

text \<open>
  One piece after a \<open>%\<close>: its first two characters are looked up in the table; on a
  \<open>KeyError\<close> the \<open>%\<close> is kept and the piece appended unchanged.
\<close>

definition unquote_item :: "nat list \<Rightarrow> bytes" where
  "unquote_item item =
     (case hextobyte (take 2 item) of
        Some b \<Rightarrow> b # drop 2 item
      | None \<Rightarrow> 37 # item)"

definition unquote_to_bytes :: "nat list \<Rightarrow> bytes" where
  "unquote_to_bytes s =
     (case split_pct s of
        [] \<Rightarrow> []
      | b0 # items \<Rightarrow> b0 @ concat (map unquote_item items))"

text \<open>
  \<open>bytes.decode('utf-8', 'replace')\<close>. A lead byte must be followed by the continuation
  bytes its range asks for; overlong forms, surrogates and values above U+10FFFF are
  rejected at the second byte. A malformed or truncated sequence yields one U+FFFD
  (65533) for the bytes read so far, and decoding resumes at the offending byte.
\<close>

definition is_cont :: "nat \<Rightarrow> bool" where
  "is_cont b \<longleftrightarrow> 128 \<le> b \<and> b \<le> 191"

definition second_ok :: "nat \<Rightarrow> nat \<Rightarrow> bool" where
  "second_ok b b2 \<longleftrightarrow>
     is_cont b2 \<and>
     (if b = 224 then 160 \<le> b2
      else if b = 237 then b2 < 160
      else if b = 240 then 144 \<le> b2
      else if b = 244 then b2 < 144
      else True)"

fun utf8_decode :: "bytes \<Rightarrow> pystr" where
  "utf8_decode [] = []"
| "utf8_decode (b # bs) =
     (if b < 128 then b # utf8_decode bs
      else if 194 \<le> b \<and> b \<le> 223 then
        (case bs of
           [] \<Rightarrow> [65533]
         | b2 # r2 \<Rightarrow>
             if is_cont b2 then ((b - 192) * 64 + (b2 - 128)) # utf8_decode r2
             else 65533 # utf8_decode bs)
      else if 224 \<le> b \<and> b \<le> 239 then
        (case bs of
           [] \<Rightarrow> [65533]
         | b2 # r2 \<Rightarrow>
             if \<not> second_ok b b2 then 65533 # utf8_decode bs
             else
               (case r2 of
                  [] \<Rightarrow> [65533]
                | b3 # r3 \<Rightarrow>
                    if is_cont b3 then
                      ((b - 224) * 4096 + (b2 - 128) * 64 + (b3 - 128)) # utf8_decode r3
                    else 65533 # utf8_decode r2))
      else if 240 \<le> b \<and> b \<le> 244 then
        (case bs of
           [] \<Rightarrow> [65533]
         | b2 # r2 \<Rightarrow>
             if \<not> second_ok b b2 then 65533 # utf8_decode bs
             else
               (case r2 of
                  [] \<Rightarrow> [65533]
                | b3 # r3 \<Rightarrow>
                    if \<not> is_cont b3 then 65533 # utf8_decode r2
                    else
                      (case r3 of
                         [] \<Rightarrow> [65533]
                       | b4 # r4 \<Rightarrow>
                           if is_cont b4 then
                             ((b - 240) * 262144 + (b2 - 128) * 4096 + (b3 - 128) * 64
                                + (b4 - 128)) # utf8_decode r4
                           else 65533 # utf8_decode r3)))
      else 65533 # utf8_decode bs)"

declare utf8_decode.simps [simp del]

text \<open>
  The loop over the pieces of \<open>_asciire.split(string)\<close>: an ASCII run is decoded, the
  characters above 127 between two runs are copied.
\<close>

function unquote_parts :: "pystr \<Rightarrow> pystr" where
  "unquote_parts [] = []"
| "unquote_parts (c # cs) =
     (if c < 128 then
        utf8_decode (unquote_to_bytes (c # takeWhile (\<lambda>x. x < 128) cs))
          @ unquote_parts (dropWhile (\<lambda>x. x < 128) cs)
      else c # unquote_parts cs)"
  by pat_completeness auto
termination
  by (relation "measure length") (auto simp: less_Suc_eq_le length_dropWhile_le)

declare unquote_parts.simps [simp del]

definition unquote :: "pystr \<Rightarrow> pystr" where
  "unquote s = (if 37 \<notin> set s then s else unquote_parts s)"

section \<open>The lookup key of a request\<close>

text \<open>
  The first lines of \<open>do_GET\<close>: the leading slashes of \<open>self.path\<close> are stripped, the
  rest is percent-decoded, and a trailing \<open>.json.deflate\<close> (13 characters) is cut off.
\<close>

definition word_of_path :: "pystr \<Rightarrow> pystr" where
  "word_of_path raw =
     (let path = unquote (lstrip_slash raw)
      in if endswith path (str ''.json.deflate'') then take (length path - 13) path
         else path)"

text \<open>
  The derivation of the key in the spec's words, for comparison with \<open>word_of_path\<close>:
  percent-decode the path, then strip a single leading separator, then strip the suffix
  if present.
\<close>

definition spec_key :: "pystr \<Rightarrow> pystr" where
  "spec_key raw =
     (let decoded = unquote raw;
          path = (case decoded of [] \<Rightarrow> [] | c # rest \<Rightarrow> if c = 47 then rest else decoded)
      in if endswith path (str ''.json.deflate'') then take (length path - 13) path
         else path)"

text \<open>
  The client's side of the round trip, which is not part of the repository: a word is
  put into a path by percent-encoding its UTF-8 bytes, as \<open>urllib.parse.quote\<close> with
  \<open>safe=''\<close> does. Letters, digits and \<open>_.-~\<close> stand for themselves; every other
  byte is written as \<open>%XX\<close> with upper-case hexadecimal digits.
\<close>

definition utf8_encode_char :: "nat \<Rightarrow> bytes" where
  "utf8_encode_char c =
     (if c < 128 then [c]
      else if c < 2048 then [192 + c div 64, 128 + c mod 64]
      else if c < 65536 then [224 + c div 4096, 128 + c div 64 mod 64, 128 + c mod 64]
      else [240 + c div 262144, 128 + c div 4096 mod 64, 128 + c div 64 mod 64,
            128 + c mod 64])"

definition utf8_encode :: "pystr \<Rightarrow> bytes" where
  "utf8_encode s = concat (map utf8_encode_char s)"

text \<open>
  The code points that have a UTF-8 encoding: up to U+10FFFF, without the surrogates
  U+D800 to U+DFFF.
\<close>

definition scalar :: "nat \<Rightarrow> bool" where
  "scalar c \<longleftrightarrow> c < 1114112 \<and> \<not> (55296 \<le> c \<and> c \<le> 57343)"

definition always_safe :: "nat \<Rightarrow> bool" where
  "always_safe b \<longleftrightarrow>
     (65 \<le> b \<and> b \<le> 90) \<or> (97 \<le> b \<and> b \<le> 122) \<or> (48 \<le> b \<and> b \<le> 57)
       \<or> b = 95 \<or> b = 46 \<or> b = 45 \<or> b = 126"

definition upper_hexdigit :: "nat \<Rightarrow> nat" where
  "upper_hexdigit d = (if d < 10 then 48 + d else 55 + d)"

definition quote_byte :: "nat \<Rightarrow> pystr" where
  "quote_byte b =
     (if always_safe b then [b] else [37, upper_hexdigit (b div 16), upper_hexdigit (b mod 16)])"

definition quote :: "pystr \<Rightarrow> pystr" where
  "quote s = concat (map quote_byte (utf8_encode s))"

section \<open>Exceptions\<close>

text \<open>
  The exceptions the program meets. \<open>OSError\<close> stands for the class and its subclasses
  (the only ones \<open>find_available_port\<close> catches), \<open>UnicodeEncodeError\<close> carries the
  string that could not be encoded and the span of the offending characters, and
  \<open>Error\<close> is any other exception (a database driver's, for instance) with its text.
\<close>

datatype exn =
    RuntimeError pystr
  | OSError pystr
  | UnicodeEncodeError pystr nat nat
  | Error pystr

fun is_OSError :: "exn \<Rightarrow> bool" where
  "is_OSError (OSError _) = True"
| "is_OSError _ = False"

definition hexdigit :: "nat \<Rightarrow> nat" where
  "hexdigit d = (if d < 10 then 48 + d else 87 + d)"

text \<open>\<open>'%04x' % n\<close> and \<open>'%08x' % n\<close> for a number that fits the width.\<close>

fun hex_pad :: "nat \<Rightarrow> nat \<Rightarrow> pystr" where
  "hex_pad 0 n = []"
| "hex_pad (Suc w) n = hex_pad w (n div 16) @ [hexdigit (n mod 16)]"

text \<open>
  \<open>str(e)\<close>, the text the handler interpolates into its 500 messages. For a
  \<open>UnicodeEncodeError\<close> of the \<open>latin-1\<close> codec the interpreter names the character
  when the span holds one character and the span otherwise (39 is the apostrophe, 92 the
  backslash, 45 the hyphen).
\<close>

definition codec_cannot :: pystr where
  "codec_cannot = [39] @ str ''latin-1'' @ [39] @ str '' codec can'' @ [39] @ str ''t encode ''"

definition unicode_error_str :: "pystr \<Rightarrow> nat \<Rightarrow> nat \<Rightarrow> pystr" where
  "unicode_error_str object start stop =
     (if start < length object \<and> stop = start + 1 then
        (let badchar = object ! start
         in codec_cannot @ str ''character '' @ [39, 92]
            @ (if badchar \<le> 255 then 120 # hex_pad 2 badchar
               else if badchar \<le> 65535 then 117 # hex_pad 4 badchar
               else 85 # hex_pad 8 badchar)
            @ [39] @ str '' in position '' @ decimal start
            @ str '': ordinal not in range(256)'')
      else
        codec_cannot @ str ''characters in position ''
          @ decimal start @ [45] @ decimal (stop - 1)
          @ str '': ordinal not in range(256)'')"

fun exn_str :: "exn \<Rightarrow> pystr" where
  "exn_str (RuntimeError t) = t"
| "exn_str (OSError t) = t"
| "exn_str (UnicodeEncodeError object start stop) = unicode_error_str object start stop"
| "exn_str (Error t) = t"

section \<open>Responses\<close>

text \<open>
  What a client receives for a request of HTTP/1.x: the status code and reason phrase of
  the status line, the header lines in the order they were buffered, and the body. The
  \<open>Server\<close> and \<open>Date\<close> headers that the library's \<open>send_response\<close> puts first in
  every response are left out.
\<close>

record response =
  status :: int
  reason :: pystr
  headers :: "(pystr \<times> pystr) list"
  body :: bytes

text \<open>
  \<open>CORSRequestHandler.end_headers\<close>: four \<open>send_header\<close> calls, then the inherited
  method, which flushes the buffer.
\<close>

definition end_headers :: "(pystr \<times> pystr) list \<Rightarrow> (pystr \<times> pystr) list" where
  "end_headers buffer =
     buffer @
     [(str ''Access-Control-Allow-Origin'', str ''*''),
      (str ''Access-Control-Allow-Methods'', str ''GET, OPTIONS''),
      (str ''Access-Control-Allow-Headers'', str ''*''),
      (str ''Cache-Control'', str ''no-store, no-cache, must-revalidate'')]"

text \<open>
  \<open>str.encode('latin-1', 'strict')\<close>: a string with a code point above 255 raises
  \<open>UnicodeEncodeError\<close> for the first run of such characters.
\<close>

definition latin1_encode :: "pystr \<Rightarrow> exn + bytes" where
  "latin1_encode s =
     (let start = length (takeWhile (\<lambda>c. c < 256) s)
      in if start = length s then Inr s
         else Inl (UnicodeEncodeError s start
                     (start + length (takeWhile (\<lambda>c. 256 \<le> c) (drop start s)))))"

text \<open>
  The library's \<open>send_response_only\<close> formats the status line
  \<open>"%s %d %s\r\n" % (protocol_version, code, message)\<close>, with the protocol version
  \<open>HTTP/1.0\<close> of \<open>BaseHTTPRequestHandler\<close>, and encodes it as \<open>latin-1\<close>, strictly.
\<close>

definition status_line :: "int \<Rightarrow> pystr \<Rightarrow> pystr" where
  "status_line code message =
     str ''HTTP/1.0 '' @ str_of_int code @ [32] @ message @ [13, 10]"

text \<open>
  The library's \<open>send_error(code, message)\<close>: the status line, \<open>Connection: close\<close>,
  for a code that allows a body the headers of the HTML page that explains the error,
  \<open>self.end_headers()\<close> (the handler's own), and the page. The page is the library's;
  \<open>page code message\<close> stands for its bytes.
\<close>

definition send_error ::
    "(int \<Rightarrow> pystr \<Rightarrow> bytes) \<Rightarrow> int \<Rightarrow> pystr \<Rightarrow> exn + response" where
  "send_error page code message =
     (case latin1_encode (status_line code message) of
        Inl e \<Rightarrow> Inl e
      | Inr _ \<Rightarrow>
          if code \<ge> 200 \<and> code \<noteq> 204 \<and> code \<noteq> 205 \<and> code \<noteq> 304 then
            Inr \<lparr>status = code, reason = message,
                 headers = end_headers
                   [(str ''Connection'', str ''close''),
                    (str ''Content-Type'', str ''text/html;charset=utf-8''),
                    (str ''Content-Length'', str_of_int (int (length (page code message))))],
                 body = page code message\<rparr>
          else
            Inr \<lparr>status = code, reason = message,
                 headers = end_headers [(str ''Connection'', str ''close'')],
                 body = []\<rparr>)"

text \<open>
  The success path of both branches of \<open>do_GET\<close>: \<open>send_response(200)\<close>, whose reason
  phrase is the library's \<open>OK\<close>, the two headers, \<open>end_headers()\<close>, and the data.
\<close>

definition send_data :: "bytes \<Rightarrow> response" where
  "send_data data =
     \<lparr>status = 200, reason = str ''OK'',
      headers = end_headers
        [(str ''Content-Type'', str ''application/octet-stream''),
         (str ''Content-Length'', str_of_int (int (length data)))],
      body = data\<rparr>"

section \<open>The request handler\<close>

text \<open>
  What a request reads from outside the handler. \<open>db_connection\<close> is the global of the
  same name: \<open>None\<close>, or a connection, whose \<open>lookup\<close> is the query
  \<open>SELECT json_data FROM entries WHERE word = ?\<close> followed by \<open>fetchone()\<close> (an
  exception, no row, or the blob of the row; the column holds bytes) and whose
  \<open>count_entries\<close> is the \<open>SELECT COUNT(*)\<close> of the startup. \<open>files\<close> is the working
  directory: no entry when \<open>os.path.exists\<close> is false, otherwise what opening and reading
  the file gives.
\<close>

record conn =
  lookup :: "pystr \<Rightarrow> exn + bytes option"
  count_entries :: "exn + int"

datatype stored = Readable bytes | Unreadable exn

record env =
  db_connection :: "conn option"
  files :: "pystr \<Rightarrow> stored option"
  error_page :: "int \<Rightarrow> pystr \<Rightarrow> bytes"

text \<open>The backend operations a request performs, in order.\<close>

datatype access = Query pystr | Exists pystr | Read pystr

text \<open>
  \<open>do_GET\<close>. The result is the list of backend operations and either the response or
  the exception that leaves the method (then nothing was sent). In the database branch
  the whole lookup, the 404 included, is inside \<open>try ... except Exception\<close>; in the file
  branch only the reading and the 200 response are (34 is the double quote).
\<close>

definition do_GET :: "env \<Rightarrow> pystr \<Rightarrow> access list \<times> (exn + response)" where
  "do_GET env raw =
     (let word = word_of_path raw
      in if word = [] then ([], send_error (error_page env) 400 (str ''No word specified''))
         else
           (case db_connection env of
              Some db \<Rightarrow>
                ([Query word],
                 (case (case lookup db word of
                          Inl e \<Rightarrow> Inl e
                        | Inr (Some data) \<Rightarrow> Inr (send_data data)
                        | Inr None \<Rightarrow>
                            send_error (error_page env) 404
                              (str ''Word '' @ [34] @ word @ [34] @ str '' not found in database''))
                  of
                    Inr r \<Rightarrow> Inr r
                  | Inl e \<Rightarrow>
                      send_error (error_page env) 500 (str ''Database error: '' @ exn_str e)))
            | None \<Rightarrow>
                (let file_path = word @ str ''.json.deflate''
                 in case files env file_path of
                      Some f \<Rightarrow>
                        ([Exists file_path, Read file_path],
                         (case f of
                            Readable data \<Rightarrow> Inr (send_data data)
                          | Unreadable e \<Rightarrow>
                              send_error (error_page env) 500
                                (str ''File read error: '' @ exn_str e)))
                    | None \<Rightarrow>
                        ([Exists file_path],
                         send_error (error_page env) 404
                           (str ''Word '' @ [34] @ word @ [34] @ str '' not found'')))))"

text \<open>\<open>do_OPTIONS\<close>: \<open>send_response(200)\<close> and \<open>end_headers()\<close>.\<close>

definition do_OPTIONS :: "response" where
  "do_OPTIONS = \<lparr>status = 200, reason = str ''OK'', headers = end_headers [], body = []\<rparr>"

text \<open>
  The request version the library reads off the request line. A line of two words is an
  HTTP/0.9 request, and \<open>HTTP/0.9\<close> is also the version in force while the library
  rejects a line it cannot parse. For that version \<open>send_response_only\<close>,
  \<open>send_header\<close> and \<open>end_headers\<close> of the library emit nothing, and no status line
  is encoded: the reply is the body alone.
\<close>

datatype version = HTTP_0_9 | HTTP_1

text \<open>
  A reply as it is sent: the body alone (\<open>Simple\<close>), or status line, header lines, an
  empty line and the body (\<open>Full\<close>). \<open>wire\<close> gives the bytes: the status line as
  \<open>status_line\<close> formats it, with the reason phrase verbatim, and every header as
  \<open>"%s: %s\r\n"\<close> (58 is the colon, 32 the space, 13 and 10 are CR and LF).
\<close>

datatype reply = Simple bytes | Full response

definition header_line :: "pystr \<times> pystr \<Rightarrow> bytes" where
  "header_line h = fst h @ [58, 32] @ snd h @ [13, 10]"

fun wire :: "reply \<Rightarrow> bytes" where
  "wire (Simple data) = data"
| "wire (Full r) =
     status_line (status r) (reason r) @ concat (map header_line (headers r)) @ [13, 10]
       @ body r"

text \<open>
  \<open>send_error\<close> and \<open>do_GET\<close> for an HTTP/0.9 request: the same branches, but every
  \<open>send_response\<close> and \<open>send_header\<close> is without effect and nothing is encoded, so
  no exception arises and only the error page or the data is written.
\<close>

definition send_error_09 :: "(int \<Rightarrow> pystr \<Rightarrow> bytes) \<Rightarrow> int \<Rightarrow> pystr \<Rightarrow> bytes" where
  "send_error_09 page code message =
     (if code \<ge> 200 \<and> code \<noteq> 204 \<and> code \<noteq> 205 \<and> code \<noteq> 304 then page code message
      else [])"

definition do_GET_09 :: "env \<Rightarrow> pystr \<Rightarrow> access list \<times> bytes" where
  "do_GET_09 env raw =
     (let word = word_of_path raw
      in if word = [] then ([], send_error_09 (error_page env) 400 (str ''No word specified''))
         else
           (case db_connection env of
              Some db \<Rightarrow>
                ([Query word],
                 (case lookup db word of
                    Inl e \<Rightarrow>
                      send_error_09 (error_page env) 500 (str ''Database error: '' @ exn_str e)
                  | Inr (Some data) \<Rightarrow> data
                  | Inr None \<Rightarrow>
                      send_error_09 (error_page env) 404
                        (str ''Word '' @ [34] @ word @ [34] @ str '' not found in database'')))
            | None \<Rightarrow>
                (let file_path = word @ str ''.json.deflate''
                 in case files env file_path of
                      Some f \<Rightarrow>
                        ([Exists file_path, Read file_path],
                         (case f of
                            Readable data \<Rightarrow> data
                          | Unreadable e \<Rightarrow>
                              send_error_09 (error_page env) 500
                                (str ''File read error: '' @ exn_str e)))
                    | None \<Rightarrow>
                        ([Exists file_path],
                         send_error_09 (error_page env) 404
                           (str ''Word '' @ [34] @ word @ [34] @ str '' not found'')))))"

text \<open>
  A request as the library hands it on: a GET with its version and path, an OPTIONS
  request (never HTTP/0.9, which knows GET only), or a request line that the library
  answers itself with \<open>send_error(code, message)\<close> while the version is still
  \<open>HTTP/0.9\<close> (too few or too many words without a valid version, a bad version,
  an HTTP/0.9 request that is not a GET).
\<close>

datatype request = GET version pystr | OPTIONS pystr | BadRequestLine int pystr

fun handle :: "env \<Rightarrow> request \<Rightarrow> access list \<times> (exn + reply)" where
  "handle env (GET HTTP_1 raw) =
     (case do_GET env raw of
        (accesses, Inl e) \<Rightarrow> (accesses, Inl e)
      | (accesses, Inr r) \<Rightarrow> (accesses, Inr (Full r)))"
| "handle env (GET HTTP_0_9 raw) =
     (case do_GET_09 env raw of (accesses, data) \<Rightarrow> (accesses, Inr (Simple data)))"
| "handle env (OPTIONS raw) = ([], Inr (Full do_OPTIONS))"
| "handle env (BadRequestLine code message) =
     ([], Inr (Simple (send_error_09 (error_page env) code message)))"

fun http1 :: "request \<Rightarrow> bool" where
  "http1 (GET v raw) = (v = HTTP_1)"
| "http1 (OPTIONS raw) = True"
| "http1 (BadRequestLine code message) = False"

text \<open>
  The client's side: the bytes received are cut into lines at every CR LF, the first
  line is the status line, the header block runs up to the first empty line, and a
  header line is a name, a colon, and a value after optional spaces.
\<close>

fun split_crlf :: "bytes \<Rightarrow> bytes list" where
  "split_crlf [] = [[]]"
| "split_crlf [c] = [[c]]"
| "split_crlf (c # d # rest) =
     (if c = 13 \<and> d = 10 then [] # split_crlf rest
      else (case split_crlf (d # rest) of [] \<Rightarrow> [[c]] | l # ls \<Rightarrow> (c # l) # ls))"

definition parse_header :: "bytes \<Rightarrow> pystr \<times> pystr" where
  "parse_header line =
     (takeWhile (\<lambda>c. c \<noteq> 58) line,
      dropWhile (\<lambda>c. c = 32) (drop 1 (dropWhile (\<lambda>c. c \<noteq> 58) line)))"

definition received_headers :: "bytes \<Rightarrow> (pystr \<times> pystr) list" where
  "received_headers w = map parse_header (takeWhile (\<lambda>l. l \<noteq> []) (tl (split_crlf w)))"

text \<open>
  The bytes received carry a header with a value when exactly one line of the header
  block has that name, and that line has the value.
\<close>

definition carried :: "bytes \<Rightarrow> pystr \<Rightarrow> pystr \<Rightarrow> bool" where
  "carried w name value \<longleftrightarrow>
     map snd (filter (\<lambda>h. fst h = name) (received_headers w)) = [value]"

definition cors_and_cache_received :: "bytes \<Rightarrow> bool" where
  "cors_and_cache_received w \<longleftrightarrow>
     carried w (str ''Access-Control-Allow-Origin'') (str ''*'') \<and>
     carried w (str ''Access-Control-Allow-Methods'') (str ''GET, OPTIONS'') \<and>
     carried w (str ''Access-Control-Allow-Headers'') (str ''*'') \<and>
     carried w (str ''Cache-Control'') (str ''no-store, no-cache, must-revalidate'')"

text \<open>A header that survives the wire: no colon or CR in the name, no CR in the value,
  no space at the start of the value.\<close>

definition plain_header :: "pystr \<times> pystr \<Rightarrow> bool" where
  "plain_header h \<longleftrightarrow>
     58 \<notin> set (fst h) \<and> 13 \<notin> set (fst h) \<and> 13 \<notin> set (snd h)
       \<and> (snd h = [] \<or> hd (snd h) \<noteq> 32)"

text \<open>
  Examples for the lookups below. The text is what the interpreter reports when the
  status line of a 404 for the word U+3042 cannot be encoded: the offending character is
  at position 19 of the line, behind \<open>HTTP/1.0 404 Word "\<close>.
\<close>

definition kana_complaint :: pystr where
  "kana_complaint =
     [39] @ str ''latin-1'' @ [39] @ str '' codec can'' @ [39] @ str ''t encode character ''
       @ [39, 92] @ str ''u3042'' @ [39] @ str '' in position 19: ordinal not in range(256)''"

definition empty_database :: conn where
  "empty_database = \<lparr>lookup = (\<lambda>w. Inr None), count_entries = Inr 0\<rparr>"

text \<open>
  A response carries a header with a value when exactly one of its header lines has that
  name, and that line has the value.
\<close>

definition carries :: "response \<Rightarrow> pystr \<Rightarrow> pystr \<Rightarrow> bool" where
  "carries r name value \<longleftrightarrow> map snd (filter (\<lambda>h. fst h = name) (headers r)) = [value]"

definition cors_and_cache :: "response \<Rightarrow> bool" where
  "cors_and_cache r \<longleftrightarrow>
     carries r (str ''Access-Control-Allow-Origin'') (str ''*'') \<and>
     carries r (str ''Access-Control-Allow-Methods'') (str ''GET, OPTIONS'') \<and>
     carries r (str ''Access-Control-Allow-Headers'') (str ''*'') \<and>
     carries r (str ''Cache-Control'') (str ''no-store, no-cache, must-revalidate'')"

section \<open>The port allocator\<close>

text \<open>
  \<open>find_available_port\<close>. \<open>bind p\<close> is what creating a socket and binding it to port
  \<open>p\<close> does: nothing (the socket is closed again and \<open>p\<close> returned) or an exception,
  of which only \<open>OSError\<close> is caught. The first component of the result lists the ports
  probed, in order.
\<close>

fun try_ports :: "(int \<Rightarrow> exn option) \<Rightarrow> int list \<Rightarrow> int list \<times> (exn + int) option" where
  "try_ports bind [] = ([], None)"
| "try_ports bind (port # ports) =
     (case bind port of
        None \<Rightarrow> ([port], Some (Inr port))
      | Some e \<Rightarrow>
          if is_OSError e then
            (case try_ports bind ports of (probed, r) \<Rightarrow> (port # probed, r))
          else ([port], Some (Inl e)))"

definition find_available_port ::
    "(int \<Rightarrow> exn option) \<Rightarrow> int \<Rightarrow> int \<Rightarrow> int list \<times> (exn + int)" where
  "find_available_port bind start_port max_attempts =
     (case try_ports bind [start_port .. start_port + max_attempts - 1] of
        (probed, Some r) \<Rightarrow> (probed, r)
      | (probed, None) \<Rightarrow>
          (probed,
           Inl (RuntimeError
                  (str ''Could not find available port in range '' @ str_of_int start_port
                     @ [45] @ str_of_int (start_port + max_attempts)))))"

text \<open>A port is taken when binding the probe socket to it raises \<open>OSError\<close>.\<close>

definition taken :: "(int \<Rightarrow> exn option) \<Rightarrow> int \<Rightarrow> bool" where
  "taken bind p = (case bind p of Some e \<Rightarrow> is_OSError e | None \<Rightarrow> False)"

section \<open>Startup\<close>

text \<open>
  The main block up to \<open>serve_forever\<close>. The world it runs in: whether
  \<open>dictionary.db\<close> exists, what \<open>sqlite3.connect\<close> gives, what binding a probe socket
  to a port does, whether writing the port file raises, and what constructing the
  \<open>HTTPServer\<close> (which binds and listens) does on a port.
\<close>

record world =
  db_exists :: bool
  connect :: "exn + conn"
  bind_probe :: "int \<Rightarrow> exn option"
  write_port_file :: "exn option"
  server_bind :: "int \<Rightarrow> exn option"

text \<open>The lines printed, by what they report, and the observable steps of the startup.\<close>

datatype message =
    UsingDatabase int
  | FailedToOpen exn
  | FallingBack
  | NoDatabase
  | Ready int

datatype event =
    Print message
  | Probe int
  | WritePortFile pystr
  | BindServer int
  | ServeForever

text \<open>
  Lines 113 to 128: the backend is chosen. Every exception of the \<open>try\<close> block is
  caught, reported, and answered with \<open>db_connection = None\<close>.
\<close>

definition resolve_backend :: "world \<Rightarrow> message list \<times> conn option" where
  "resolve_backend w =
     (if db_exists w then
        (case connect w of
           Inl e \<Rightarrow> ([FailedToOpen e, FallingBack], None)
         | Inr db \<Rightarrow>
             (case count_entries db of
                Inl e \<Rightarrow> ([FailedToOpen e, FallingBack], None)
              | Inr count \<Rightarrow> ([UsingDatabase count], Some db)))
      else ([NoDatabase], None))"

text \<open>
  Lines 130 to 149. The result is the trace of events and either the exception that ends
  the program or the state in which the server runs: the database connection and the port.
\<close>

definition main :: "world \<Rightarrow> event list \<times> (exn + conn option \<times> int)" where
  "main w =
     (case resolve_backend w of
        (printed, db) \<Rightarrow>
          (case find_available_port (bind_probe w) 8000 100 of
             (probed, Inl e) \<Rightarrow> (map Print printed @ map Probe probed, Inl e)
           | (probed, Inr port) \<Rightarrow>
               (case write_port_file w of
                  Some e \<Rightarrow> (map Print printed @ map Probe probed, Inl e)
                | None \<Rightarrow>
                    (case server_bind w port of
                       Some e \<Rightarrow>
                         (map Print printed @ map Probe probed
                            @ [WritePortFile (str_of_int port)], Inl e)
                     | None \<Rightarrow>
                         (map Print printed @ map Probe probed
                            @ [WritePortFile (str_of_int port), BindServer port,
                               Print (Ready port), ServeForever],
                          Inr (db, port))))))"

text \<open>
  The order the spec asks of the startup, read off a trace: the port file is written
  only after the server's socket was bound, and the ready line is printed only after the
  port file was written. \<open>spec_publish_order bound written\<close> scans the trace with what
  has happened so far.
\<close>

fun spec_publish_order :: "bool \<Rightarrow> bool \<Rightarrow> event list \<Rightarrow> bool" where
  "spec_publish_order bound written [] = True"
| "spec_publish_order bound written (BindServer p # es) = spec_publish_order True written es"
| "spec_publish_order bound written (WritePortFile c # es) =
     (bound \<and> spec_publish_order bound True es)"
| "spec_publish_order bound written (Print (Ready p) # es) =
     (written \<and> spec_publish_order bound written es)"
| "spec_publish_order bound written (e # es) = spec_publish_order bound written es"

text \<open>The steps before the port is published: backend messages and probes.\<close>

fun preparation :: "event \<Rightarrow> bool" where
  "preparation (Print (Ready p)) = False"
| "preparation (Print m) = True"
| "preparation (Probe p) = True"
| "preparation e = False"

text \<open>
  A world for examples: no database file, every port free, the port file writable and
  the server's bind successful.
\<close>

definition quiet_world :: world where
  "quiet_world =
     \<lparr>db_exists = False, connect = Inl (Error []), bind_probe = (\<lambda>p. None),
      write_port_file = None, server_bind = (\<lambda>p. None)\<rparr>"

text \<open>
  A second world for examples: \<open>dictionary.db\<close> exists and opens, counting its entries
  raises, and everything else succeeds.
\<close>

definition corrupt_database_world :: world where
  "corrupt_database_world =
     \<lparr>db_exists = True,
      connect = Inr \<lparr>lookup = (\<lambda>w. Inr None),
                     count_entries = Inl (Error (str ''file is not a database''))\<rparr>,
      bind_probe = (\<lambda>p. None), write_port_file = None, server_bind = (\<lambda>p. None)\<rparr>"

section \<open>Facts about the library functions\<close>

lemma latin1_encode_ok:
  assumes "\<forall>c\<in>set s. c < 256"
  shows "latin1_encode s = Inr s"
proof -
  have "length (takeWhile (\<lambda>c. c < 256) s) = length s"
    using assms by (simp add: takeWhile_eq_all_conv [THEN iffD2])
  then show ?thesis
    unfolding latin1_encode_def Let_def by (simp only: simp_thms if_True)
qed


section \<open>The empty key\<close>





section \<open>The port allocator returns the first free port\<close>

lemma try_ports_first_free:
  "\<forall>q\<in>set xs. taken bind q \<Longrightarrow> bind p = None \<Longrightarrow>
   try_ports bind (xs @ p # ys) = (xs @ [p], Some (Inr p))"
  by (induction xs) (auto simp: taken_def split: option.splits)

lemma try_ports_all_taken:
  "\<forall>q\<in>set xs. taken bind q \<Longrightarrow> try_ports bind xs = (xs, None)"
  by (induction xs) (auto simp: taken_def split: option.splits)

lemma first_free:
  assumes "start \<le> p" "p < start + n" "bind p = None"
    and "\<forall>q. start \<le> q \<and> q < p \<longrightarrow> taken bind q"
  shows "find_available_port bind start n = ([start..p], Inr p)"
proof -
  have split: "[start .. start + n - 1] = [start..p - 1] @ p # [p + 1 .. start + n - 1]"
    using assms(1,2) by (intro upto_split2 [where j = p, simplified] upto_split3) auto
  have "\<forall>q\<in>set [start..p - 1]. taken bind q"
    using assms(4) by auto
  then have "try_ports bind [start .. start + n - 1] = ([start..p - 1] @ [p], Some (Inr p))"
    unfolding split using assms(3) by (rule try_ports_first_free)
  moreover have "[start..p - 1] @ [p] = [start..p]"
    using assms(1) by (simp add: upto_rec2)
  ultimately show ?thesis
    by (simp add: find_available_port_def)
qed

lemma none_free:
  assumes "\<forall>q. start \<le> q \<and> q < start + n \<longrightarrow> taken bind q"
  shows "find_available_port bind start n =
    ([start .. start + n - 1],
     Inl (RuntimeError (str ''Could not find available port in range '' @ str_of_int start
            @ [45] @ str_of_int (start + n))))"
proof -
  have "\<forall>q\<in>set [start .. start + n - 1]. taken bind q"
    using assms by auto
  then have "try_ports bind [start .. start + n - 1] = ([start .. start + n - 1], None)"
    by (rule try_ports_all_taken)
  then show ?thesis
    by (simp add: find_available_port_def)
qed

lemma upto_8000_8005: "[8000..8005] = [8000, 8001, 8002, 8003, 8004, 8005::int]"
  by (simp add: upto.simps)

text \<open>
  Claim C5. \<open>find_available_port(start, max_attempts)\<close> probes the ports
  \<open>start, start + 1, ...\<close> in order and returns the first one that binds: when port
  \<open>p\<close> of the range binds and every port of the range before it is taken, exactly the
  ports \<open>start .. p\<close> are probed and \<open>p\<close> is returned. When every port of the range is
  taken, all of them are probed and the function raises its \<open>RuntimeError\<close> (the spec's
  \<open>NoPortAvailable\<close>). With 8000 to 8004 taken and 8005 free,
  \<open>find_available_port(8000, 100)\<close> returns 8005.
\<close>

theorem find_available_port_first_free:
  "(start \<le> p \<and> p < start + n \<and> bind p = None \<and>
      (\<forall>q. start \<le> q \<and> q < p \<longrightarrow> taken bind q) \<longrightarrow>
    find_available_port bind start n = ([start..p], Inr p)) \<and>
   ((\<forall>q. start \<le> q \<and> q < start + n \<longrightarrow> taken bind q) \<longrightarrow>
    find_available_port bind start n =
      ([start .. start + n - 1],
       Inl (RuntimeError (str ''Could not find available port in range '' @ str_of_int start
              @ [45] @ str_of_int (start + n))))) \<and>
   ((\<forall>q. 8000 \<le> q \<and> q \<le> 8004 \<longrightarrow> taken bind q) \<and> bind 8005 = None \<longrightarrow>
    find_available_port bind 8000 100 = ([8000, 8001, 8002, 8003, 8004, 8005], Inr 8005))"
proof (intro conjI impI)
  assume "start \<le> p \<and> p < start + n \<and> bind p = None \<and>
    (\<forall>q. start \<le> q \<and> q < p \<longrightarrow> taken bind q)"
  then show "find_available_port bind start n = ([start..p], Inr p)"
    by (intro first_free) auto
next
  assume "\<forall>q. start \<le> q \<and> q < start + n \<longrightarrow> taken bind q"
  then show "find_available_port bind start n =
      ([start .. start + n - 1],
       Inl (RuntimeError (str ''Could not find available port in range '' @ str_of_int start
              @ [45] @ str_of_int (start + n))))"
    by (rule none_free)
next
  assume a: "(\<forall>q. 8000 \<le> q \<and> q \<le> 8004 \<longrightarrow> taken bind q) \<and> bind 8005 = None"
  have "find_available_port bind 8000 100 = ([8000..8005], Inr 8005)"
    using a by (intro first_free) auto
  then show "find_available_port bind 8000 100 =
      ([8000, 8001, 8002, 8003, 8004, 8005], Inr 8005)"
    by (simp only: upto_8000_8005)
qed

theorem find_available_port_first_free_witness:
  "find_available_port (\<lambda>p. if p \<le> 8004 then Some (OSError (str ''in use'')) else None)
     8000 100 = ([8000, 8001, 8002, 8003, 8004, 8005], Inr 8005) \<and>
   find_available_port (\<lambda>p. Some (OSError (str ''in use''))) 8000 2 =
     ([8000, 8001],
      Inl (RuntimeError (str ''Could not find available port in range 8000-8002'')))"
proof -
  let ?b = "\<lambda>p::int. if p \<le> 8004 then Some (OSError (str ''in use'')) else None"
  let ?c = "\<lambda>p::int. Some (OSError (str ''in use''))"
  have h1: "(\<forall>q. 8000 \<le> q \<and> q \<le> 8004 \<longrightarrow> taken ?b q) \<and> ?b 8005 = None"
    by (simp add: taken_def)
  have h2: "\<forall>q. 8000 \<le> q \<and> q < 8000 + 2 \<longrightarrow> taken ?c q"
    by (simp add: taken_def)
  have msg: "str ''Could not find available port in range '' @ str_of_int 8000
      @ [45] @ str_of_int (8000 + 2) =
    str ''Could not find available port in range 8000-8002''"
    by (simp add: str_def str_of_int_def decimal.simps)
  have r: "[8000 .. 8000 + 2 - 1] = [8000, 8001::int]"
    by (simp add: upto.simps)
  from find_available_port_first_free [of 8000 8005 100 ?b] h1
  have "find_available_port ?b 8000 100 = ([8000, 8001, 8002, 8003, 8004, 8005], Inr 8005)"
    by blast
  moreover from find_available_port_first_free [of 8000 8000 2 ?c] h2
  have "find_available_port ?c 8000 2 =
      ([8000 .. 8000 + 2 - 1],
       Inl (RuntimeError (str ''Could not find available port in range '' @ str_of_int 8000
              @ [45] @ str_of_int (8000 + 2))))"
    by blast
  ultimately show ?thesis
    by (simp only: msg r)
qed

section \<open>Startup: the backend and the order of publication\<close>

lemma resolve_backend_prints:
  "\<forall>m\<in>set (fst (resolve_backend w)). preparation (Print m)"
  by (auto simp: resolve_backend_def split: sum.splits)

lemma resolve_backend_absent:
  "resolve_backend (w\<lparr>db_exists := False\<rparr>) = ([NoDatabase], None)"
  by (simp add: resolve_backend_def)

lemma resolve_backend_fallback:
  assumes "\<not> db_exists w \<or> (\<exists>e. connect w = Inl e) \<or>
    (\<exists>db e. connect w = Inr db \<and> count_entries db = Inl e)"
  shows "snd (resolve_backend w) = None"
    and "db_exists w \<longrightarrow> (\<exists>e. fst (resolve_backend w) = [FailedToOpen e, FallingBack])"
  using assms by (auto simp: resolve_backend_def split: sum.splits)

lemma main_outcome:
  "snd (main w) =
     (case snd (find_available_port (bind_probe w) 8000 100) of
        Inl e \<Rightarrow> Inl e
      | Inr port \<Rightarrow>
          (case write_port_file w of
             Some e \<Rightarrow> Inl e
           | None \<Rightarrow>
               (case server_bind w port of
                  Some e \<Rightarrow> Inl e
                | None \<Rightarrow> Inr (snd (resolve_backend w), port))))"
  by (simp add: main_def split: prod.splits sum.splits option.splits)

lemma main_trace:
  "fst (main w) =
     map Print (fst (resolve_backend w))
       @ map Probe (fst (find_available_port (bind_probe w) 8000 100))
       @ (case snd (find_available_port (bind_probe w) 8000 100) of
            Inl e \<Rightarrow> []
          | Inr port \<Rightarrow>
              (case write_port_file w of
                 Some e \<Rightarrow> []
               | None \<Rightarrow>
                   (case server_bind w port of
                      Some e \<Rightarrow> [WritePortFile (str_of_int port)]
                    | None \<Rightarrow>
                        [WritePortFile (str_of_int port), BindServer port,
                         Print (Ready port), ServeForever])))"
  by (simp add: main_def split: prod.splits sum.splits option.splits)

text \<open>
  Claim C6. When \<open>dictionary.db\<close> is absent, the file backend is selected and that is
  reported. When \<open>sqlite3.connect\<close> raises, or counting the entries raises, the file
  backend is selected as well (\<open>db_connection\<close> is \<open>None\<close>) and the exception raised
  is printed, followed by the line that announces the fallback; it is not raised again.
  An exception that ends the startup is therefore never the database's: it comes from the
  port search, from writing the port file, or from the server's bind. And when the port
  search returns a port, the port file is written and the server binds, the startup
  prints the backend's lines, probes, writes the port file, binds, prints the ready line
  and serves, on the file backend.
\<close>

theorem unreadable_database_falls_back:
  "(\<not> db_exists w \<longrightarrow> resolve_backend w = ([NoDatabase], None)) \<and>
   (db_exists w \<and> connect w = Inl e \<longrightarrow>
      resolve_backend w = ([FailedToOpen e, FallingBack], None)) \<and>
   (db_exists w \<and> connect w = Inr db \<and> count_entries db = Inl e \<longrightarrow>
      resolve_backend w = ([FailedToOpen e, FallingBack], None)) \<and>
   (snd (main w) = Inl x \<longrightarrow>
      snd (find_available_port (bind_probe w) 8000 100) = Inl x \<or>
      write_port_file w = Some x \<or>
      (\<exists>port. snd (find_available_port (bind_probe w) 8000 100) = Inr port \<and>
         server_bind w port = Some x)) \<and>
   (snd (resolve_backend w) = None \<and>
    find_available_port (bind_probe w) 8000 100 = (probed, Inr port) \<and>
    write_port_file w = None \<and> server_bind w port = None \<longrightarrow>
      main w =
        (map Print (fst (resolve_backend w)) @ map Probe probed
           @ [WritePortFile (str_of_int port), BindServer port, Print (Ready port),
              ServeForever],
         Inr (None, port)))"
proof (intro conjI impI)
  assume "\<not> db_exists w"
  then show "resolve_backend w = ([NoDatabase], None)"
    by (simp add: resolve_backend_def)
next
  assume "db_exists w \<and> connect w = Inl e"
  then show "resolve_backend w = ([FailedToOpen e, FallingBack], None)"
    by (simp add: resolve_backend_def)
next
  assume "db_exists w \<and> connect w = Inr db \<and> count_entries db = Inl e"
  then show "resolve_backend w = ([FailedToOpen e, FallingBack], None)"
    by (simp add: resolve_backend_def)
next
  assume "snd (main w) = Inl x"
  then show "snd (find_available_port (bind_probe w) 8000 100) = Inl x \<or>
      write_port_file w = Some x \<or>
      (\<exists>port. snd (find_available_port (bind_probe w) 8000 100) = Inr port \<and>
         server_bind w port = Some x)"
    by (auto simp: main_outcome split: sum.splits option.splits)
next
  assume a: "snd (resolve_backend w) = None \<and>
    find_available_port (bind_probe w) 8000 100 = (probed, Inr port) \<and>
    write_port_file w = None \<and> server_bind w port = None"
  then have "fst (main w) = map Print (fst (resolve_backend w)) @ map Probe probed
           @ [WritePortFile (str_of_int port), BindServer port, Print (Ready port),
              ServeForever]"
    by (simp add: main_trace)
  moreover from a have "snd (main w) = Inr (None, port)"
    by (simp add: main_outcome)
  ultimately show "main w =
        (map Print (fst (resolve_backend w)) @ map Probe probed
           @ [WritePortFile (str_of_int port), BindServer port, Print (Ready port),
              ServeForever],
         Inr (None, port))"
    by (simp add: prod_eq_iff)
qed

theorem unreadable_database_falls_back_witness:
  "resolve_backend corrupt_database_world =
     ([FailedToOpen (Error (str ''file is not a database'')), FallingBack], None) \<and>
   main corrupt_database_world =
     ([Print (FailedToOpen (Error (str ''file is not a database''))), Print FallingBack,
       Probe 8000, WritePortFile (str ''8000''), BindServer 8000, Print (Ready 8000),
       ServeForever],
      Inr (None, 8000))"
proof -
  let ?w = corrupt_database_world
  let ?db = "\<lparr>lookup = (\<lambda>w. Inr None),
                count_entries = Inl (Error (str ''file is not a database''))\<rparr>"
  let ?e = "Error (str ''file is not a database'')"
  have h3: "db_exists ?w \<and> connect ?w = Inr ?db \<and> count_entries ?db = Inl ?e"
    by (simp add: corrupt_database_world_def)
  have "find_available_port (bind_probe ?w) 8000 100 = ([8000..8000], Inr 8000)"
    by (intro first_free) (auto simp: corrupt_database_world_def)
  then have port: "find_available_port (bind_probe ?w) 8000 100 = ([8000], Inr 8000)"
    by simp
  have s: "str_of_int 8000 = str ''8000''"
    by (simp add: str_of_int_def decimal.simps str_def)
  note t = unreadable_database_falls_back [of ?w ?e ?db _ "[8000]" 8000]
  from t h3 have r: "resolve_backend ?w = ([FailedToOpen ?e, FallingBack], None)"
    by blast
  have h5: "snd (resolve_backend ?w) = None \<and>
    find_available_port (bind_probe ?w) 8000 100 = ([8000], Inr 8000) \<and>
    write_port_file ?w = None \<and> server_bind ?w 8000 = None"
    using r port by (simp add: corrupt_database_world_def)
  from t h5 have "main ?w =
        (map Print (fst (resolve_backend ?w)) @ map Probe [8000]
           @ [WritePortFile (str_of_int 8000), BindServer 8000, Print (Ready 8000),
              ServeForever],
         Inr (None, 8000))"
    by blast
  with r show ?thesis
    by (simp add: s)
qed

lemma main_quiet_world:
  "fst (main quiet_world) =
     [Print NoDatabase, Probe 8000, WritePortFile (str ''8000''), BindServer 8000,
      Print (Ready 8000), ServeForever]"
proof -
  have "find_available_port (bind_probe quiet_world) 8000 100 = ([8000..8000], Inr 8000)"
    by (intro first_free) (auto simp: quiet_world_def)
  then show ?thesis
    by (simp add: main_trace resolve_backend_def quiet_world_def str_of_int_def
        decimal.simps str_def)
qed

text \<open>
  Claim C1, as stated, fails on the code: the port file is written before the
  \<open>HTTPServer\<close> is constructed, that is before the listening socket is bound (the
  source's comment says so: the file is written before the server is started). In the
  quiet world the trace shows the write ahead of the bind.
\<close>

theorem port_file_written_before_bind:
  "fst (main quiet_world) =
     [Print NoDatabase, Probe 8000, WritePortFile (str ''8000''), BindServer 8000,
      Print (Ready 8000), ServeForever] \<and>
   \<not> spec_publish_order False False (fst (main quiet_world))"
  by (simp add: main_quiet_world)

text \<open>
  Claim C1, amended. Whenever the ready line for a port is printed, the trace of the
  startup ends with: the port file written with the decimal port number, the server's
  socket bound to that port, the ready line, the serving loop. Everything before is
  preparation (backend messages and probes), and the port is the one the port allocator
  returned. So the file is written after the allocator has found the port and before the
  listening socket is bound, and the ready line follows both.
\<close>

theorem port_file_before_bind_before_ready:
  assumes "Print (Ready port) \<in> set (fst (main w))"
  shows "\<exists>pre. fst (main w) =
      pre @ [WritePortFile (str_of_int port), BindServer port, Print (Ready port), ServeForever]
    \<and> list_all preparation pre
    \<and> snd (find_available_port (bind_probe w) 8000 100) = Inr port"
proof -
  let ?pre = "map Print (fst (resolve_backend w))
       @ map Probe (fst (find_available_port (bind_probe w) 8000 100))"
  have pre: "list_all preparation ?pre"
    using resolve_backend_prints [of w] by (auto simp: list_all_iff)
  have notin: "Print (Ready port) \<notin> set ?pre"
  proof
    assume "Print (Ready port) \<in> set ?pre"
    with pre have "preparation (Print (Ready port))"
      unfolding list_all_iff by blast
    then show False by simp
  qed
  show ?thesis
  proof (cases "snd (find_available_port (bind_probe w) 8000 100)")
    case (Inl e)
    then have "fst (main w) = ?pre" by (simp add: main_trace)
    with assms notin show ?thesis by simp
  next
    case (Inr q)
    show ?thesis
    proof (cases "write_port_file w")
      case (Some e)
      with Inr have "fst (main w) = ?pre" by (simp add: main_trace)
      with assms notin show ?thesis by simp
    next
      case None
      show ?thesis
      proof (cases "server_bind w q")
        case (Some e)
        with Inr None have "fst (main w) = ?pre @ [WritePortFile (str_of_int q)]"
          by (simp add: main_trace)
        with assms notin show ?thesis by auto
      next
        case n2: None
        with Inr None have tr: "fst (main w) =
            ?pre @ [WritePortFile (str_of_int q), BindServer q, Print (Ready q), ServeForever]"
          by (simp add: main_trace)
        with assms notin have "q = port" by auto
        with tr pre Inr show ?thesis by blast
      qed
    qed
  qed
qed

theorem port_file_before_bind_before_ready_witness:
  "Print (Ready 8000) \<in> set (fst (main quiet_world)) \<and>
   (\<exists>pre. fst (main quiet_world) =
      pre @ [WritePortFile (str_of_int 8000), BindServer 8000, Print (Ready 8000), ServeForever]
    \<and> list_all preparation pre
    \<and> snd (find_available_port (bind_probe quiet_world) 8000 100) = Inr 8000)"
proof -
  have h: "Print (Ready 8000) \<in> set (fst (main quiet_world))"
    by (simp add: main_quiet_world)
  from port_file_before_bind_before_ready [OF h] h show ?thesis
    by blast
qed

section \<open>The CORS and cache headers\<close>

lemma send_data_cors: "cors_and_cache (send_data data)"
  by (simp add: cors_and_cache_def carries_def send_data_def end_headers_def str_def)

lemma do_OPTIONS_cors: "cors_and_cache do_OPTIONS"
  by (simp add: cors_and_cache_def carries_def do_OPTIONS_def end_headers_def str_def)

lemma send_error_cors: "send_error page code message = Inr r \<Longrightarrow> cors_and_cache r"
  by (auto simp: send_error_def cors_and_cache_def carries_def end_headers_def str_def
      split: sum.splits if_splits)

lemma do_GET_cors: "snd (do_GET env raw) = Inr r \<Longrightarrow> cors_and_cache r"
  by (auto simp: do_GET_def Let_def send_data_cors
      split: if_splits option.splits sum.splits stored.splits dest: send_error_cors)

lemma word_of_abc: "word_of_path (str ''/abc.json.deflate'') = str ''abc''"
  by (simp add: word_of_path_def str_def lstrip_slash_def unquote_def endswith_def)

section \<open>The key of a path\<close>

lemma split_pct_ne: "split_pct s \<noteq> []"
  by (induction s) (auto split: list.splits)

lemma unquote_to_bytes_Cons:
  "c \<noteq> 37 \<Longrightarrow> unquote_to_bytes (c # s) = c # unquote_to_bytes s"
  using split_pct_ne [of s] by (auto simp: unquote_to_bytes_def split: list.splits)

lemma hexval_not_pct: "hexval h = Some x \<Longrightarrow> h \<noteq> 37"
  by (auto simp: hexval_def split: if_splits)

lemma unquote_to_bytes_pct:
  assumes "hexval h1 = Some x" "hexval h2 = Some y"
  shows "unquote_to_bytes (37 # h1 # h2 # s) = (16 * x + y) # unquote_to_bytes s"
  using split_pct_ne [of s] assms hexval_not_pct [OF assms(1)] hexval_not_pct [OF assms(2)]
  by (auto simp: unquote_to_bytes_def unquote_item_def hextobyte_def split: list.splits)

lemma utf8_decode_ascii: "b < 128 \<Longrightarrow> utf8_decode (b # bs) = b # utf8_decode bs"
  by (simp add: utf8_decode.simps)

lemma unquote_parts_slash:
  "unquote_parts (47 # rest) = 47 # unquote_parts rest"
proof (cases rest)
  case Nil
  then show ?thesis
    by (simp add: unquote_parts.simps unquote_to_bytes_Cons utf8_decode_ascii)
      (simp add: unquote_to_bytes_def utf8_decode.simps)
next
  case (Cons c cs)
  then show ?thesis
    by (simp add: unquote_parts.simps unquote_to_bytes_Cons utf8_decode_ascii)
      (simp add: unquote_to_bytes_def utf8_decode.simps)
qed

lemma unquote_slash: "unquote (47 # rest) = 47 # unquote rest"
  by (simp add: unquote_def unquote_parts_slash)

lemma lstrip_slash_replicate:
  assumes "rest = [] \<or> hd rest \<noteq> 47"
  shows "lstrip_slash (replicate n 47 @ rest) = rest"
proof -
  have "dropWhile (\<lambda>c. c = 47) rest = rest"
    using assms by (cases rest) auto
  then show ?thesis
    by (simp add: lstrip_slash_def dropWhile_append3 dropWhile_append)
qed

text \<open>
  Claim C2, as stated, fails on the code: \<open>do_GET\<close> strips the separators before it
  decodes, and it strips all of them. For \<open>//a\<close> the code's key is \<open>a\<close> where the
  claimed derivation gives \<open>/a\<close>; for \<open>%2Fa\<close> the code's key is \<open>/a\<close> where the
  claimed derivation gives \<open>a\<close>.
\<close>

theorem key_differs_from_spec_key:
  "word_of_path (str ''//a'') = str ''a'' \<and> spec_key (str ''//a'') = str ''/a'' \<and>
   word_of_path (str ''%2Fa'') = str ''/a'' \<and> spec_key (str ''%2Fa'') = str ''a''"
  by (simp add: word_of_path_def spec_key_def str_def lstrip_slash_def unquote_def endswith_def
      unquote_parts.simps unquote_to_bytes_def unquote_item_def hextobyte_def hexval_def
      utf8_decode.simps)

text \<open>
  Claim C2, amended. The key is a function of the raw path alone: every leading separator
  is stripped from the raw path, the remainder is percent-decoded, and the suffix
  \<open>.json.deflate\<close> is cut off if present. For a raw path with exactly one leading
  separator this is the claimed derivation: decode, strip one separator, strip the suffix.
\<close>

theorem key_of_path:
  assumes "rest = [] \<or> hd rest \<noteq> 47"
  shows "word_of_path (replicate n 47 @ rest) =
      (if endswith (unquote rest) (str ''.json.deflate'')
       then take (length (unquote rest) - 13) (unquote rest) else unquote rest) \<and>
    word_of_path (47 # rest) = spec_key (47 # rest)"
proof -
  have one: "lstrip_slash (47 # rest) = rest"
    using lstrip_slash_replicate [OF assms, of 1] by simp
  have single: "word_of_path (47 # rest) = spec_key (47 # rest)"
    by (simp add: word_of_path_def spec_key_def unquote_slash one)
  have several: "word_of_path (replicate n 47 @ rest) =
      (if endswith (unquote rest) (str ''.json.deflate'')
       then take (length (unquote rest) - 13) (unquote rest) else unquote rest)"
    by (simp add: word_of_path_def Let_def lstrip_slash_replicate [OF assms])
  from several single show ?thesis
    by (rule conjI)
qed

theorem key_of_path_witness:
  "word_of_path (replicate 3 47 @ str ''a.json.deflate'') = str ''a'' \<and>
   word_of_path (47 # str ''a.json.deflate'') = spec_key (47 # str ''a.json.deflate'')"
proof -
  have h: "str ''a.json.deflate'' = [] \<or> hd (str ''a.json.deflate'') \<noteq> 47"
    by (simp add: str_def)
  have u: "(if endswith (unquote (str ''a.json.deflate'')) (str ''.json.deflate'')
       then take (length (unquote (str ''a.json.deflate'')) - 13) (unquote (str ''a.json.deflate''))
       else unquote (str ''a.json.deflate'')) = str ''a''"
    by (simp add: unquote_def endswith_def str_def)
  from key_of_path [OF h, of 3] show ?thesis
    by (simp only: u simp_thms)
qed

section \<open>The round trip of a word through a path\<close>

lemma decode2:
  assumes "2 \<le> a" "a < 32" "r < 64"
  shows "utf8_decode ([192 + a, 128 + r] @ bs) = (a * 64 + r) # utf8_decode bs"
  using assms by (simp add: utf8_decode.simps is_cont_def)

lemma decode3:
  assumes "a < 16" "m < 64" "r < 64" "a = 0 \<longrightarrow> 32 \<le> m" "a = 13 \<longrightarrow> m < 32"
  shows "utf8_decode ([224 + a, 128 + m, 128 + r] @ bs)
    = (a * 4096 + m * 64 + r) # utf8_decode bs"
  using assms by (simp add: utf8_decode.simps is_cont_def second_ok_def)

lemma decode4:
  assumes "a < 5" "n < 64" "m < 64" "r < 64" "a = 0 \<longrightarrow> 16 \<le> n" "a = 4 \<longrightarrow> n < 16"
  shows "utf8_decode ([240 + a, 128 + n, 128 + m, 128 + r] @ bs)
    = (a * 262144 + n * 4096 + m * 64 + r) # utf8_decode bs"
  using assms by (simp add: utf8_decode.simps is_cont_def second_ok_def)

lemma utf8_roundtrip2:
  assumes "128 \<le> c" "c < 2048"
  shows "utf8_decode ([192 + c div 64, 128 + c mod 64] @ bs) = c # utf8_decode bs"
proof -
  define a r where "a = c div 64" and "r = c mod 64"
  have c: "c = a * 64 + r" and r: "r < 64"
    by (simp_all add: a_def r_def)
  have "2 \<le> a" "a < 32"
    using c r assms by linarith+
  from decode2 [OF this r, of bs] show ?thesis
    unfolding c [symmetric] by (simp only: a_def r_def)
qed

lemma utf8_roundtrip3:
  assumes "2048 \<le> c" "c < 65536" "\<not> (55296 \<le> c \<and> c \<le> 57343)"
  shows "utf8_decode ([224 + c div 4096, 128 + c div 64 mod 64, 128 + c mod 64] @ bs)
    = c # utf8_decode bs"
proof -
  define d r where "d = c div 64" and "r = c mod 64"
  define a m where "a = d div 64" and "m = d mod 64"
  have c: "c = d * 64 + r" and r: "r < 64"
    by (simp_all add: d_def r_def)
  have d: "d = a * 64 + m" and m: "m < 64"
    by (simp_all add: a_def m_def)
  have a: "c div 4096 = a"
    by (simp add: a_def d_def div_mult2_eq [symmetric])
  have v: "a * 4096 + m * 64 + r = c"
    using c d by linarith
  have b: "a < 16"
    using c d r m assms by linarith
  have lo: "a = 0 \<longrightarrow> 32 \<le> m"
    using c d r m assms by auto
  have hi: "a = 13 \<longrightarrow> m < 32"
    using c d r m assms by auto
  from decode3 [OF b m r lo hi, of bs] show ?thesis
    unfolding v a by (simp only: m_def d_def r_def)
qed

lemma utf8_roundtrip4:
  assumes "65536 \<le> c" "c < 1114112"
  shows "utf8_decode ([240 + c div 262144, 128 + c div 4096 mod 64, 128 + c div 64 mod 64,
      128 + c mod 64] @ bs) = c # utf8_decode bs"
proof -
  define d r where "d = c div 64" and "r = c mod 64"
  define e m where "e = d div 64" and "m = d mod 64"
  define a n where "a = e div 64" and "n = e mod 64"
  have c: "c = d * 64 + r" and r: "r < 64"
    by (simp_all add: d_def r_def)
  have d: "d = e * 64 + m" and m: "m < 64"
    by (simp_all add: e_def m_def)
  have e: "e = a * 64 + n" and n: "n < 64"
    by (simp_all add: a_def n_def)
  have e': "c div 4096 = e"
    by (simp add: e_def d_def div_mult2_eq [symmetric])
  have a': "c div 262144 = a"
    by (simp add: a_def e_def d_def div_mult2_eq [symmetric])
  have v: "a * 262144 + n * 4096 + m * 64 + r = c"
    using c d e by linarith
  have b: "a < 5"
    using c d e r m n assms by linarith
  have lo: "a = 0 \<longrightarrow> 16 \<le> n"
    using c d e r m n assms by auto
  have hi: "a = 4 \<longrightarrow> n < 16"
    using c d e r m n assms by auto
  from decode4 [OF b n m r lo hi, of bs] show ?thesis
    unfolding v a' e' by (simp only: n_def m_def d_def r_def)
qed

lemma utf8_roundtrip_char:
  assumes "scalar c"
  shows "utf8_decode (utf8_encode_char c @ bs) = c # utf8_decode bs"
proof -
  consider "c < 128" | "128 \<le> c" "c < 2048" | "2048 \<le> c" "c < 65536" | "65536 \<le> c"
    by linarith
  then show ?thesis
  proof cases
    case 1
    then show ?thesis by (simp add: utf8_encode_char_def utf8_decode.simps)
  next
    case 2
    then show ?thesis using utf8_roundtrip2 [of c bs] by (simp add: utf8_encode_char_def)
  next
    case 3
    then show ?thesis using utf8_roundtrip3 [of c bs] assms
      by (simp add: utf8_encode_char_def scalar_def)
  next
    case 4
    then show ?thesis using utf8_roundtrip4 [of c bs] assms
      by (simp add: utf8_encode_char_def scalar_def)
  qed
qed

lemma utf8_roundtrip:
  "\<forall>c\<in>set w. scalar c \<Longrightarrow> utf8_decode (utf8_encode w @ bs) = w @ utf8_decode bs"
  by (induction w) (simp_all add: utf8_encode_def utf8_roundtrip_char)

lemma utf8_decode_ascii_list: "\<forall>b\<in>set bs. b < 128 \<Longrightarrow> utf8_decode bs = bs"
  by (induction bs) (simp_all add: utf8_decode.simps)

lemma hexval_upper: "d < 16 \<Longrightarrow> hexval (upper_hexdigit d) = Some d"
  by (auto simp: hexval_def upper_hexdigit_def)

lemma upper_hexdigit_ascii: "d < 16 \<Longrightarrow> upper_hexdigit d < 128 \<and> upper_hexdigit d \<noteq> 47"
  by (auto simp: upper_hexdigit_def)

lemma byte_digits:
  assumes "(b::nat) < 256"
  shows "b div 16 < 16" "b mod 16 < 16" "16 * (b div 16) + b mod 16 = b"
  using assms by (simp_all add: div_less_iff_less_mult)

lemma unquote_quote_byte:
  assumes "b < 256"
  shows "unquote_to_bytes (quote_byte b @ s) = b # unquote_to_bytes s"
proof (cases "always_safe b")
  case True
  then have "b \<noteq> 37" by (auto simp: always_safe_def)
  with True show ?thesis by (simp add: quote_byte_def unquote_to_bytes_Cons)
next
  case False
  from byte_digits [OF assms] show ?thesis
    using False by (simp add: quote_byte_def unquote_to_bytes_pct [OF hexval_upper hexval_upper])
qed

lemma quote_byte_ascii:
  assumes "b < 256"
  shows "\<forall>x\<in>set (quote_byte b). x < 128 \<and> x \<noteq> 47"
  using byte_digits(1,2) [OF assms] upper_hexdigit_ascii
  by (auto simp: quote_byte_def always_safe_def)

lemma utf8_encode_char_bytes: "scalar c \<Longrightarrow> \<forall>b\<in>set (utf8_encode_char c). b < 256"
  by (auto simp: utf8_encode_char_def scalar_def div_less_iff_less_mult
      intro: less_trans [OF mod_less_divisor])

lemma utf8_encode_bytes: "\<forall>c\<in>set w. scalar c \<Longrightarrow> \<forall>b\<in>set (utf8_encode w). b < 256"
  using utf8_encode_char_bytes by (auto simp: utf8_encode_def)

lemma unquote_to_bytes_quoted:
  "\<forall>b\<in>set bs. b < 256 \<Longrightarrow>
   unquote_to_bytes (concat (map quote_byte bs) @ t) = bs @ unquote_to_bytes t"
  by (induction bs) (simp_all add: unquote_quote_byte)

lemma unquote_to_bytes_plain: "37 \<notin> set t \<Longrightarrow> unquote_to_bytes t = t"
  by (induction t) (simp_all add: unquote_to_bytes_Cons, simp add: unquote_to_bytes_def)

lemma quoted_ascii:
  "\<forall>b\<in>set bs. b < 256 \<Longrightarrow> \<forall>x\<in>set (concat (map quote_byte bs)). x < 128 \<and> x \<noteq> 47"
  using quote_byte_ascii by auto

lemma unquote_ascii:
  assumes "\<forall>x\<in>set s. x < 128"
  shows "unquote s = utf8_decode (unquote_to_bytes s)"
proof (cases "37 \<in> set s")
  case False
  with assms show ?thesis
    by (simp add: unquote_def unquote_to_bytes_plain utf8_decode_ascii_list)
next
  case True
  then obtain c cs where s: "s = c # cs" by (cases s) auto
  have tw: "takeWhile (\<lambda>x. x < 128) cs = cs" and dw: "dropWhile (\<lambda>x. x < 128) cs = []"
    using assms s by (simp_all add: takeWhile_eq_all_conv [THEN iffD2])
  have "c < 128"
    using assms s by simp
  then have "unquote_parts (c # cs) = utf8_decode (unquote_to_bytes (c # cs))"
    by (simp add: unquote_parts.simps tw dw)
  with True s show ?thesis
    by (simp add: unquote_def)
qed

lemma unquote_quote_tail:
  assumes w: "\<forall>c\<in>set w. scalar c" and t: "\<forall>x\<in>set t. x < 128 \<and> x \<noteq> 37"
  shows "unquote (quote w @ t) = w @ t"
proof -
  have bytes: "\<forall>b\<in>set (utf8_encode w). b < 256"
    using w by (rule utf8_encode_bytes)
  have "\<forall>x\<in>set (quote w @ t). x < 128"
    using quoted_ascii [OF bytes] t by (auto simp: quote_def)
  then have "unquote (quote w @ t) = utf8_decode (unquote_to_bytes (quote w @ t))"
    by (rule unquote_ascii)
  also have "unquote_to_bytes (quote w @ t) = utf8_encode w @ unquote_to_bytes t"
    unfolding quote_def using bytes by (rule unquote_to_bytes_quoted)
  also have "unquote_to_bytes t = t"
    using t by (intro unquote_to_bytes_plain) auto
  also have "utf8_decode (utf8_encode w @ t) = w @ utf8_decode t"
    using w by (rule utf8_roundtrip)
  also have "utf8_decode t = t"
    using t by (intro utf8_decode_ascii_list) auto
  finally show ?thesis .
qed

lemma lstrip_slash_quoted:
  assumes w: "\<forall>c\<in>set w. scalar c" and t: "t = [] \<or> hd t \<noteq> 47"
  shows "lstrip_slash (47 # quote w @ t) = quote w @ t"
proof -
  have "\<forall>x\<in>set (quote w). x \<noteq> 47"
    using quoted_ascii [OF utf8_encode_bytes [OF w]] by (auto simp: quote_def)
  then have "quote w @ t = [] \<or> hd (quote w @ t) \<noteq> 47"
    using t by (cases "quote w") auto
  from lstrip_slash_replicate [OF this, of 1] show ?thesis
    by simp
qed

lemma suffix_plain: "\<forall>x\<in>set (str ''.json.deflate''). x < 128 \<and> x \<noteq> 37"
  by (simp add: str_def)

lemma suffix_length: "length (str ''.json.deflate'') = 13"
  by (simp add: str_def)

lemma suffix_head: "str ''.json.deflate'' = [] \<or> hd (str ''.json.deflate'') \<noteq> 47"
  by (simp add: str_def)

lemma endswith_append: "endswith (w @ t) t"
  by (simp add: endswith_def)

text \<open>
  Claim C7, amended. For every word of Unicode scalar values: the path made of a slash,
  the percent-encoded word and the suffix \<open>.json.deflate\<close> has the word as its key;
  the path without the suffix has the word as its key exactly when the word does not
  itself end in \<open>.json.deflate\<close>, and otherwise the word with those 13 characters
  cut off.
\<close>

theorem word_round_trip:
  assumes "\<forall>c\<in>set w. scalar c"
  shows "word_of_path (47 # quote w @ str ''.json.deflate'') = w \<and>
    word_of_path (47 # quote w) =
      (if endswith w (str ''.json.deflate'') then take (length w - 13) w else w)"
proof -
  have "unquote (lstrip_slash (47 # quote w @ str ''.json.deflate'')) = w @ str ''.json.deflate''"
    using lstrip_slash_quoted [OF assms suffix_head] unquote_quote_tail [OF assms suffix_plain]
    by simp
  then have with_suffix: "word_of_path (47 # quote w @ str ''.json.deflate'') = w"
    by (simp add: word_of_path_def endswith_append suffix_length)
  have "unquote (lstrip_slash (47 # quote w)) = w"
    using lstrip_slash_quoted [OF assms, of "[]"] unquote_quote_tail [OF assms, of "[]"]
    by simp
  then have without: "word_of_path (47 # quote w) =
      (if endswith w (str ''.json.deflate'') then take (length w - 13) w else w)"
    by (simp add: word_of_path_def)
  from with_suffix without show ?thesis
    by (rule conjI)
qed

lemma quote_example: "quote (str ''a.json.deflate'') = str ''a.json.deflate''"
  by (simp add: quote_def utf8_encode_def utf8_encode_char_def quote_byte_def always_safe_def
      str_def)

text \<open>
  Claim C7, as stated, fails on the code for a word that ends in the suffix and is sent
  without one: the key derivation cannot tell the word's own ending from the suffix.
  The word \<open>a.json.deflate\<close>, sent as \<open>/a.json.deflate\<close>, has the key \<open>a\<close>.
\<close>

theorem suffix_word_loses_suffix:
  "word_of_path (47 # quote (str ''a.json.deflate'')) = str ''a'' \<and>
   str ''a'' \<noteq> str ''a.json.deflate''"
  by (simp add: quote_example)
    (simp add: word_of_path_def str_def lstrip_slash_def unquote_def endswith_def)

theorem word_round_trip_witness:
  "word_of_path (47 # quote [12354, 233] @ str ''.json.deflate'') = [12354, 233] \<and>
   word_of_path (47 # quote [12354, 233]) = [12354, 233]"
proof -
  have h: "\<forall>c\<in>set [12354, 233]. scalar c"
    by (simp add: scalar_def)
  have e: "\<not> endswith [12354, 233] (str ''.json.deflate'')"
    by (simp add: endswith_def str_def)
  from word_round_trip [OF h] e show ?thesis
    by simp
qed

section \<open>Lookups, and words outside Latin-1\<close>

lemma word_of_kana: "word_of_path (str ''/%E3%81%82.json.deflate'') = [12354]"
  by (simp add: word_of_path_def str_def lstrip_slash_def unquote_def endswith_def
      unquote_parts.simps unquote_to_bytes_def unquote_item_def hextobyte_def hexval_def
      utf8_decode.simps is_cont_def second_ok_def)

lemma hex_pad_4:
  "hex_pad 4 n =
     [hexdigit (n div 16 div 16 div 16 mod 16), hexdigit (n div 16 div 16 mod 16),
      hexdigit (n div 16 mod 16), hexdigit (n mod 16)]"
proof -
  have "hex_pad (Suc (Suc (Suc (Suc 0)))) n =
     [hexdigit (n div 16 div 16 div 16 mod 16), hexdigit (n div 16 div 16 mod 16),
      hexdigit (n div 16 mod 16), hexdigit (n mod 16)]"
    by simp
  moreover have "(4::nat) = Suc (Suc (Suc (Suc 0)))"
    by simp
  ultimately show ?thesis
    by (simp only:)
qed

lemma decimal_digits: "\<forall>c\<in>set (decimal n). c < 256"
proof (induction n rule: decimal.induct)
  case (1 n)
  then show ?case
    by (subst decimal.simps) (auto intro: less_trans [OF mod_less_divisor])
qed

lemma send_error_latin1:
  assumes "\<forall>c\<in>set message. c < 256" "200 \<le> code" "code \<noteq> 204" "code \<noteq> 205" "code \<noteq> 304"
  shows "send_error page code message =
     Inr \<lparr>status = code, reason = message,
          headers = end_headers
            [(str ''Connection'', str ''close''),
             (str ''Content-Type'', str ''text/html;charset=utf-8''),
             (str ''Content-Length'', str_of_int (int (length (page code message))))],
          body = page code message\<rparr>"
proof -
  have "\<forall>c\<in>set (status_line code message). c < 256"
    using assms(1,2) decimal_digits by (auto simp: status_line_def str_of_int_def str_def)
  then show ?thesis
    using assms(2-) by (simp add: send_error_def latin1_encode_ok)
qed

lemma database_only:
  "db_connection env = Some db \<Longrightarrow> do_GET (env\<lparr>files := f\<rparr>) raw = do_GET env raw"
  by (auto simp: do_GET_def Let_def split: sum.splits option.splits)

lemma database_accesses:
  "db_connection env = Some db \<Longrightarrow> word_of_path raw \<noteq> [] \<Longrightarrow>
   fst (do_GET env raw) = [Query (word_of_path raw)]"
  by (simp add: do_GET_def Let_def)

lemma file_accesses:
  "a \<in> set (fst (do_GET env raw)) \<Longrightarrow> a \<noteq> Query (word_of_path raw) \<Longrightarrow>
   db_connection env = None"
  by (auto simp: do_GET_def Let_def split: if_splits option.splits)

lemma database_not_found_latin1:
  assumes "db_connection env = Some db" "word_of_path raw = w" "w \<noteq> []"
    and "lookup db w = Inr None" "\<forall>c\<in>set w. c < 256"
  shows "do_GET env raw =
     ([Query w], send_error (error_page env) 404
        (str ''Word '' @ [34] @ w @ [34] @ str '' not found in database''))
    \<and> (\<exists>r. snd (do_GET env raw) = Inr r \<and> status r = 404)"
proof -
  have "\<forall>c\<in>set (str ''Word '' @ [34] @ w @ [34] @ str '' not found in database''). c < 256"
    using assms(5) by (auto simp: str_def)
  from send_error_latin1 [OF this, of 404 "error_page env"] assms(1-4) show ?thesis
    by (simp add: do_GET_def)
qed

lemma file_lookup_latin1:
  assumes "db_connection env = None" "word_of_path raw = w" "w \<noteq> []"
  shows "files env (w @ str ''.json.deflate'') = Some (Readable data) \<longrightarrow>
      do_GET env raw =
        ([Exists (w @ str ''.json.deflate''), Read (w @ str ''.json.deflate'')],
         Inr (send_data data))"
    and "files env (w @ str ''.json.deflate'') = None \<and> (\<forall>c\<in>set w. c < 256) \<longrightarrow>
      fst (do_GET env raw) = [Exists (w @ str ''.json.deflate'')] \<and>
      (\<exists>r. snd (do_GET env raw) = Inr r \<and> status r = 404 \<and>
           reason r = str ''Word '' @ [34] @ w @ [34] @ str '' not found'')"
    and "files env (w @ str ''.json.deflate'') = Some (Unreadable e) \<and>
        (\<forall>c\<in>set (exn_str e). c < 256) \<longrightarrow>
      (\<exists>r. snd (do_GET env raw) = Inr r \<and> status r = 500 \<and>
           reason r = str ''File read error: '' @ exn_str e)"
proof -
  show "files env (w @ str ''.json.deflate'') = Some (Readable data) \<longrightarrow>
      do_GET env raw =
        ([Exists (w @ str ''.json.deflate''), Read (w @ str ''.json.deflate'')],
         Inr (send_data data))"
    using assms by (simp add: do_GET_def Let_def)
next
  show "files env (w @ str ''.json.deflate'') = None \<and> (\<forall>c\<in>set w. c < 256) \<longrightarrow>
      fst (do_GET env raw) = [Exists (w @ str ''.json.deflate'')] \<and>
      (\<exists>r. snd (do_GET env raw) = Inr r \<and> status r = 404 \<and>
           reason r = str ''Word '' @ [34] @ w @ [34] @ str '' not found'')"
  proof
    assume a: "files env (w @ str ''.json.deflate'') = None \<and> (\<forall>c\<in>set w. c < 256)"
    then have "\<forall>c\<in>set (str ''Word '' @ [34] @ w @ [34] @ str '' not found''). c < 256"
      by (auto simp: str_def)
    from send_error_latin1 [OF this, of 404 "error_page env"] a assms
    show "fst (do_GET env raw) = [Exists (w @ str ''.json.deflate'')] \<and>
      (\<exists>r. snd (do_GET env raw) = Inr r \<and> status r = 404 \<and>
           reason r = str ''Word '' @ [34] @ w @ [34] @ str '' not found'')"
      by (simp add: do_GET_def Let_def)
  qed
next
  show "files env (w @ str ''.json.deflate'') = Some (Unreadable e) \<and>
        (\<forall>c\<in>set (exn_str e). c < 256) \<longrightarrow>
      (\<exists>r. snd (do_GET env raw) = Inr r \<and> status r = 500 \<and>
           reason r = str ''File read error: '' @ exn_str e)"
  proof
    assume a: "files env (w @ str ''.json.deflate'') = Some (Unreadable e) \<and>
        (\<forall>c\<in>set (exn_str e). c < 256)"
    then have "\<forall>c\<in>set (str ''File read error: '' @ exn_str e). c < 256"
      by (auto simp: str_def)
    from send_error_latin1 [OF this, of 500 "error_page env"] a assms
    show "\<exists>r. snd (do_GET env raw) = Inr r \<and> status r = 500 \<and>
           reason r = str ''File read error: '' @ exn_str e"
      by (simp add: do_GET_def Let_def)
  qed
qed

lemma word_of_bare_kana: "word_of_path (str ''/%E3%81%82'') = [12354]"
  by (simp add: word_of_path_def str_def lstrip_slash_def unquote_def endswith_def
      unquote_parts.simps unquote_to_bytes_def unquote_item_def hextobyte_def hexval_def
      utf8_decode.simps is_cont_def second_ok_def)

text \<open>
  Claim C3 at a word outside Latin-1. The request \<open>GET /%E3%81%82.json.deflate\<close> asks
  for the word U+3042, which neither backend has. With a database the answer is 500, its
  message the complaint of the codec, not 404; with files the exception leaves the
  handler and no response is sent.
\<close>

theorem missing_kana_word_gets_no_404:
  "map_sum id (\<lambda>r. (status r, reason r))
     (snd (do_GET \<lparr>db_connection = Some empty_database, files = (\<lambda>p. None),
                   error_page = (\<lambda>c m. [])\<rparr> (str ''/%E3%81%82.json.deflate'')))
     = Inr (500, str ''Database error: '' @ kana_complaint) \<and>
   snd (do_GET \<lparr>db_connection = None, files = (\<lambda>p. None),
                 error_page = (\<lambda>c m. [])\<rparr> (str ''/%E3%81%82.json.deflate''))
     = Inl (UnicodeEncodeError
              (str ''HTTP/1.0 404 Word '' @ [34, 12354, 34] @ str '' not found'' @ [13, 10])
              19 20)"
  by (simp add: do_GET_def word_of_kana Let_def empty_database_def)
    (simp add: send_error_def latin1_encode_def status_line_def str_of_int_def
      decimal.simps unicode_error_str_def codec_cannot_def kana_complaint_def hexdigit_def
      hex_pad_4 end_headers_def str_def)

text \<open>
  Claim C9 at a word outside Latin-1, in file mode. For \<open>GET /%E3%81%82\<close> the file
  \<open>U+3042.json.deflate\<close> is looked for and not found, and the 404 is never sent: the
  exception leaves the handler. When the file exists and reading it fails with a message
  that names the file, the 500 is not sent either.
\<close>

theorem missing_file_for_kana_word_raises:
  "do_GET \<lparr>db_connection = None,
            files = (\<lambda>p. if p = str ''a.json.deflate'' then Some (Readable [1]) else None),
            error_page = (\<lambda>c m. [])\<rparr> (str ''/%E3%81%82'')
     = ([Exists ([12354] @ str ''.json.deflate'')],
        Inl (UnicodeEncodeError
               (str ''HTTP/1.0 404 Word '' @ [34, 12354, 34] @ str '' not found'' @ [13, 10])
               19 20)) \<and>
   do_GET \<lparr>db_connection = None,
            files = (\<lambda>p. Some (Unreadable (OSError
                      (str ''[Errno 13] Permission denied: '' @ [39, 12354]
                         @ str ''.json.deflate'' @ [39])))),
            error_page = (\<lambda>c m. [])\<rparr> (str ''/%E3%81%82'')
     = ([Exists ([12354] @ str ''.json.deflate''), Read ([12354] @ str ''.json.deflate'')],
        Inl (UnicodeEncodeError
               (str ''HTTP/1.0 500 File read error: [Errno 13] Permission denied: ''
                  @ [39, 12354] @ str ''.json.deflate'' @ [39, 13, 10]) 61 62))"
  by (simp add: do_GET_def word_of_bare_kana Let_def)
    (simp add: send_error_def latin1_encode_def status_line_def str_of_int_def
      decimal.simps unicode_error_str_def codec_cannot_def kana_complaint_def hexdigit_def
      hex_pad_4 end_headers_def str_def)

text \<open>
  Claim C10 at a word outside Latin-1. The database is open and has no row for U+3042,
  while a file for every name exists on disk. Only the database is consulted, as the
  claim says, but the answer is 500, not 404.
\<close>

theorem missing_kana_word_with_file_gets_500:
  "fst (do_GET \<lparr>db_connection = Some empty_database, files = (\<lambda>p. Some (Readable [1, 2, 3])),
                 error_page = (\<lambda>c m. [])\<rparr> (str ''/%E3%81%82.json.deflate''))
     = [Query [12354]] \<and>
   map_sum id status
     (snd (do_GET \<lparr>db_connection = Some empty_database,
                   files = (\<lambda>p. Some (Readable [1, 2, 3])),
                   error_page = (\<lambda>c m. [])\<rparr> (str ''/%E3%81%82.json.deflate'')))
     = Inr 500"
  by (simp add: do_GET_def word_of_kana Let_def empty_database_def)
    (simp add: send_error_def latin1_encode_def status_line_def str_of_int_def
      decimal.simps unicode_error_str_def codec_cannot_def kana_complaint_def hexdigit_def
      hex_pad_4 end_headers_def str_def)

section \<open>What a client receives\<close>

lemma split_crlf_ne: "split_crlf w \<noteq> []"
  by (induction w rule: split_crlf.induct) (auto split: list.splits)

lemma split_crlf_line:
  "13 \<notin> set l \<Longrightarrow> split_crlf (l @ 13 # 10 # rest) = l # split_crlf rest"
proof (induction l)
  case Nil
  then show ?case by simp
next
  case (Cons c l)
  then show ?case
    by (cases l) (auto split: list.splits)
qed

lemma header_lines_split:
  assumes "\<forall>h\<in>set hs. 13 \<notin> set (fst h) \<and> 13 \<notin> set (snd h)"
  shows "split_crlf (concat (map header_line hs) @ 13 # 10 # rest) =
    map (\<lambda>h. fst h @ [58, 32] @ snd h) hs @ [] # split_crlf rest"
  using assms
proof (induction hs)
  case Nil
  then show ?case by simp
next
  case (Cons h hs)
  have "13 \<notin> set (fst h @ [58, 32] @ snd h)"
    using Cons.prems by simp
  from split_crlf_line [OF this] Cons show ?case
    by (simp add: header_line_def)
qed

lemma parse_header_line:
  assumes "plain_header h"
  shows "parse_header (fst h @ [58, 32] @ snd h) = h"
proof -
  have k: "\<And>x. x \<in> set (fst h) \<Longrightarrow> x \<noteq> 58"
    using assms by (auto simp: plain_header_def)
  have v: "dropWhile (\<lambda>c. c = 32) (snd h) = snd h"
    using assms by (cases "snd h") (auto simp: plain_header_def)
  show ?thesis
    by (simp add: parse_header_def takeWhile_append2 k dropWhile_append2 v prod_eq_iff)
qed

lemma decimal_range: "\<forall>c\<in>set (decimal n). 48 \<le> c \<and> c \<le> 57"
proof (induction n rule: decimal.induct)
  case (1 n)
  then show ?case
    by (subst decimal.simps) (auto intro: less_imp_le)
qed

lemma decimal_ne: "decimal n \<noteq> []"
  by (subst decimal.simps) simp

lemma decimal_hd: "hd (decimal n) \<noteq> 32"
proof -
  have "hd (decimal n) \<in> set (decimal n)"
    using decimal_ne by simp
  with decimal_range [of n] have "48 \<le> hd (decimal n)"
    by blast
  then show ?thesis
    by linarith
qed

lemma decimal_no_cr: "13 \<notin> set (decimal n)"
proof
  assume "13 \<in> set (decimal n)"
  with decimal_range [of n] have "(48::nat) \<le> 13"
    by blast
  then show False
    by simp
qed

lemma str_of_int_plain:
  "13 \<notin> set (str_of_int i) \<and> str_of_int i \<noteq> [] \<and> hd (str_of_int i) \<noteq> 32"
  by (simp add: str_of_int_def decimal_no_cr decimal_ne decimal_hd)

lemma status_line_split:
  assumes "13 \<notin> set message"
  shows "\<exists>pre. status_line code message = pre @ [13, 10] \<and> 13 \<notin> set pre"
proof -
  have "13 \<notin> set (str ''HTTP/1.0 '' @ str_of_int code @ [32] @ message)"
    using assms str_of_int_plain [of code] by (simp add: str_def)
  then show ?thesis
    unfolding status_line_def by (metis append.assoc)
qed

lemma received_full:
  assumes "13 \<notin> set (reason r)" and "\<forall>h\<in>set (headers r). plain_header h"
  shows "received_headers (wire (Full r)) = headers r"
proof -
  obtain pre where pre: "status_line (status r) (reason r) = pre @ [13, 10]" "13 \<notin> set pre"
    using status_line_split [OF assms(1)] by blast
  have cr: "\<forall>h\<in>set (headers r). 13 \<notin> set (fst h) \<and> 13 \<notin> set (snd h)"
    using assms(2) by (simp add: plain_header_def)
  let ?lines = "map (\<lambda>h. fst h @ [58, 32] @ snd h) (headers r)"
  have "wire (Full r) =
      pre @ 13 # 10 # (concat (map header_line (headers r)) @ 13 # 10 # body r)"
    by (simp add: pre(1))
  then have "split_crlf (wire (Full r)) = pre # (?lines @ [] # split_crlf (body r))"
    by (simp only: split_crlf_line [OF pre(2)] header_lines_split [OF cr])
  moreover have "takeWhile (\<lambda>l. l \<noteq> []) (?lines @ [] # split_crlf (body r)) = ?lines"
    by (subst takeWhile_append2) auto
  ultimately have "takeWhile (\<lambda>l. l \<noteq> []) (tl (split_crlf (wire (Full r)))) = ?lines"
    by (simp only: list.sel)
  moreover have "map parse_header (map (\<lambda>h. fst h @ [58, 32] @ snd h) hs) = hs"
    if "\<forall>h\<in>set hs. plain_header h" for hs
    using that by (induction hs) (simp_all add: parse_header_line [simplified])
  from this [OF assms(2)] have "map parse_header ?lines = headers r" .
  ultimately show ?thesis
    by (simp only: received_headers_def)
qed

lemma end_headers_plain:
  "\<forall>h\<in>set buffer. plain_header h \<Longrightarrow> \<forall>h\<in>set (end_headers buffer). plain_header h"
  by (auto simp: end_headers_def plain_header_def str_def)

lemma send_data_plain: "\<forall>h\<in>set (headers (send_data data)). plain_header h"
proof -
  have "plain_header (str ''Content-Type'', str ''application/octet-stream'')"
    by (simp add: plain_header_def str_def)
  moreover have "plain_header (str ''Content-Length'', str_of_int (int (length data)))"
    using str_of_int_plain [of "int (length data)"] by (simp add: plain_header_def str_def)
  ultimately have "\<forall>h\<in>set [(str ''Content-Type'', str ''application/octet-stream''),
      (str ''Content-Length'', str_of_int (int (length data)))]. plain_header h"
    by simp
  then show ?thesis
    unfolding send_data_def by (simp add: end_headers_plain del: set_simps)
qed

lemma do_OPTIONS_plain: "\<forall>h\<in>set (headers do_OPTIONS). plain_header h"
  using end_headers_plain [of "[]"] by (simp add: do_OPTIONS_def)

lemma send_error_plain:
  assumes "send_error page code message = Inr r"
  shows "reason r = message" and "\<forall>h\<in>set (headers r). plain_header h"
proof -
  show "reason r = message"
    using assms by (auto simp: send_error_def split: sum.splits if_splits)
  have cl: "plain_header (str ''Content-Length'', str_of_int i)" for i
    using str_of_int_plain [of i] by (simp add: plain_header_def str_def)
  have "plain_header (str ''Connection'', str ''close'')"
    "plain_header (str ''Content-Type'', str ''text/html;charset=utf-8'')"
    by (simp_all add: plain_header_def str_def)
  with cl have "\<forall>h\<in>set [(str ''Connection'', str ''close''),
        (str ''Content-Type'', str ''text/html;charset=utf-8''),
        (str ''Content-Length'', str_of_int (int (length (page code message))))].
      plain_header h"
    and "\<forall>h\<in>set [(str ''Connection'', str ''close'')]. plain_header h"
    by simp_all
  from this [THEN end_headers_plain] assms show "\<forall>h\<in>set (headers r). plain_header h"
    by (auto simp: send_error_def split: sum.splits if_splits)
qed

lemma received_cors:
  assumes "cors_and_cache r" "13 \<notin> set (reason r)" "\<forall>h\<in>set (headers r). plain_header h"
  shows "cors_and_cache_received (wire (Full r))"
  using assms(1) received_full [OF assms(2,3)]
  by (simp add: cors_and_cache_received_def carried_def cors_and_cache_def carries_def)

lemma do_GET_plain:
  "snd (do_GET env raw) = Inr r \<Longrightarrow> \<forall>h\<in>set (headers r). plain_header h"
  by (auto simp: do_GET_def Let_def send_data_plain
      split: if_splits option.splits sum.splits stored.splits dest: send_error_plain(2))

lemma handle_http1:
  assumes "snd (handle env req) = Inr reply" "http1 req"
  shows "\<exists>r. reply = Full r \<and> cors_and_cache r \<and> (\<forall>h\<in>set (headers r). plain_header h)"
proof (cases req)
  case (GET v raw)
  with assms have "\<exists>r. reply = Full r \<and> snd (do_GET env raw) = Inr r"
    by (auto split: prod.splits sum.splits)
  then show ?thesis
    using do_GET_cors do_GET_plain by blast
next
  case (OPTIONS raw)
  with assms show ?thesis
    by (auto simp: do_OPTIONS_cors do_OPTIONS_plain)
next
  case (BadRequestLine code message)
  with assms show ?thesis by simp
qed

lemma handle_http09:
  assumes "snd (handle env req) = Inr reply" "\<not> http1 req"
  shows "\<exists>data. reply = Simple data"
proof (cases req)
  case (GET v raw)
  with assms have "v = HTTP_0_9" by (cases v) auto
  with GET assms show ?thesis
    by (auto split: prod.splits)
next
  case (OPTIONS raw)
  with assms show ?thesis by simp
next
  case (BadRequestLine code message)
  with assms show ?thesis by auto
qed

lemma http09_example:
  "handle \<lparr>db_connection = None,
            files = (\<lambda>p. if p = str ''abc.json.deflate'' then Some (Readable [1, 2, 3])
                          else None),
            error_page = (\<lambda>c m. [])\<rparr> (GET HTTP_0_9 (str ''/abc.json.deflate''))
     = ([Exists (str ''abc.json.deflate''), Read (str ''abc.json.deflate'')],
        Inr (Simple [1, 2, 3]))"
  by (simp add: do_GET_09_def word_of_abc Let_def) (simp add: str_def Let_def)

text \<open>
  Claim C4, as stated, fails on the code for a request of HTTP/0.9: the library sends
  neither status line nor headers then, by design of that protocol version, and the
  handler's \<open>end_headers\<close> adds nothing. The request line \<open>GET /abc.json.deflate\<close>
  is answered with the three bytes of the file and nothing else.
\<close>

theorem http09_reply_has_no_headers:
  "snd (handle \<lparr>db_connection = None,
                 files = (\<lambda>p. if p = str ''abc.json.deflate'' then Some (Readable [1, 2, 3])
                               else None),
                 error_page = (\<lambda>c m. [])\<rparr> (GET HTTP_0_9 (str ''/abc.json.deflate'')))
     = Inr (Simple [1, 2, 3]) \<and>
   wire (Simple [1, 2, 3]) = [1, 2, 3] \<and>
   received_headers (wire (Simple [1, 2, 3])) = [] \<and>
   \<not> carried (wire (Simple [1, 2, 3])) (str ''Access-Control-Allow-Origin'') (str ''*'')"
proof -
  have "snd (handle \<lparr>db_connection = None,
                 files = (\<lambda>p. if p = str ''abc.json.deflate'' then Some (Readable [1, 2, 3])
                               else None),
                 error_page = (\<lambda>c m. [])\<rparr> (GET HTTP_0_9 (str ''/abc.json.deflate'')))
     = Inr (Simple [1, 2, 3])"
    by (simp only: http09_example snd_conv)
  moreover have "wire (Simple [1, 2, 3]) = [1, 2, 3] \<and>
      received_headers (wire (Simple [1, 2, 3])) = [] \<and>
      \<not> carried (wire (Simple [1, 2, 3])) (str ''Access-Control-Allow-Origin'') (str ''*'')"
    by (simp add: received_headers_def carried_def)
  ultimately show ?thesis
    by (rule conjI)
qed

text \<open>
  Claim C4, amended. Every reply to a GET of HTTP/1.0 or later or to an OPTIONS request,
  with any status, is a full response, and when its reason phrase holds neither CR nor
  LF the bytes a client receives carry the four headers with exactly the values of
  \<open>cors_and_cache_received\<close>: each name on exactly one line of the header block, with
  the value given. The same holds for every reply the library sends through
  \<open>send_error\<close> in such an exchange, with any code and a message free of CR and LF.
  A reply to an HTTP/0.9 request, or to a request line the library rejects while the
  version is still HTTP/0.9, is the body alone. (A request whose handler raises gets no
  reply.)
\<close>

theorem http1_reply_carries_cors_and_cache:
  "(snd (handle env req) = Inr reply \<longrightarrow>
      (http1 req \<longrightarrow>
         (\<exists>r. reply = Full r \<and>
            (13 \<notin> set (reason r) \<and> 10 \<notin> set (reason r) \<longrightarrow>
               cors_and_cache_received (wire reply)))) \<and>
      (\<not> http1 req \<longrightarrow> (\<exists>data. reply = Simple data))) \<and>
   (send_error page code message = Inr r' \<and> 13 \<notin> set message \<and> 10 \<notin> set message \<longrightarrow>
      cors_and_cache_received (wire (Full r')))"
proof (intro conjI impI)
  assume "snd (handle env req) = Inr reply" "http1 req"
  from handle_http1 [OF this] obtain r where
    "reply = Full r" "cors_and_cache r" "\<forall>h\<in>set (headers r). plain_header h"
    by blast
  then show "\<exists>r. reply = Full r \<and>
      (13 \<notin> set (reason r) \<and> 10 \<notin> set (reason r) \<longrightarrow> cors_and_cache_received (wire reply))"
    using received_cors by blast
next
  assume "snd (handle env req) = Inr reply" "\<not> http1 req"
  then show "\<exists>data. reply = Simple data"
    by (rule handle_http09)
next
  assume a: "send_error page code message = Inr r' \<and> 13 \<notin> set message \<and> 10 \<notin> set message"
  then have "cors_and_cache r'" "reason r' = message" "\<forall>h\<in>set (headers r'). plain_header h"
    using send_error_cors send_error_plain by blast+
  with a show "cors_and_cache_received (wire (Full r'))"
    by (intro received_cors) auto
qed

theorem http1_reply_carries_cors_and_cache_witness:
  "snd (handle \<lparr>db_connection = None,
                 files = (\<lambda>p. if p = str ''abc.json.deflate'' then Some (Readable [1, 2, 3])
                               else None),
                 error_page = (\<lambda>c m. [])\<rparr> (GET HTTP_1 (str ''/abc.json.deflate'')))
     = Inr (Full (send_data [1, 2, 3])) \<and>
   cors_and_cache_received (wire (Full (send_data [1, 2, 3])))"
proof -
  let ?env = "\<lparr>db_connection = None,
                 files = (\<lambda>p. if p = str ''abc.json.deflate'' then Some (Readable [1, 2, 3])
                               else None),
                 error_page = (\<lambda>c m. [])\<rparr>"
  let ?req = "GET HTTP_1 (str ''/abc.json.deflate'')"
  have h: "snd (handle ?env ?req) = Inr (Full (send_data [1, 2, 3]))"
    by (simp add: do_GET_def word_of_abc Let_def) (simp add: str_def Let_def)
  have v: "http1 ?req"
    by simp
  have ok: "13 \<notin> set (reason (send_data [1, 2, 3])) \<and> 10 \<notin> set (reason (send_data [1, 2, 3]))"
    by (simp add: send_data_def str_def)
  from http1_reply_carries_cors_and_cache [of ?env ?req "Full (send_data [1, 2, 3])"] h v
  obtain r where "Full (send_data [1, 2, 3]) = Full r"
    and "13 \<notin> set (reason r) \<and> 10 \<notin> set (reason r) \<longrightarrow>
      cors_and_cache_received (wire (Full (send_data [1, 2, 3])))"
    by blast
  with ok have "cors_and_cache_received (wire (Full (send_data [1, 2, 3])))"
    by simp
  with h show ?thesis
    by (rule conjI)
qed

end
